theory Spec2Isabelle
  imports Complex_Main "HOL-Library.Word"
begin

section \<open>Data model of the hybrid betweenness centrality\<close>

text \<open>
  The embedding follows \<^verbatim>\<open>src/alg/totem_betweenness_hybrid.cu\<close>.

  \<^item> \<^verbatim>\<open>uint32_t\<close> is \<open>32 word\<close> (the atomic adds wrap around).
  \<^item> \<^verbatim>\<open>cost_t\<close> is an unsigned integer type declared in a header that is not part
    of the sources at hand; it is \<open>'w word\<close> for an arbitrary width \<open>'w\<close>, so that
    \<open>level + 1\<close> and \<open>level--\<close> wrap as the machine type does.
  \<^item> \<^verbatim>\<open>score_t\<close> and \<^verbatim>\<open>double\<close> are idealised as \<open>real\<close>: the rounding of the
    floating point operations is not modelled.
  \<^item> \<^verbatim>\<open>vid_t\<close> and \<^verbatim>\<open>eid_t\<close> values are only compared, used as indices and
    decoded, never overflowed; they are \<open>nat\<close>.
  \<^item> A C array is a store from indices to values (\<open>nat \<Rightarrow> 'a\<close>); its extent is the
    count the code keeps beside it. An access beyond the extent is undefined in C; the
    theorems below speak about indices within the extents.
  \<^item> The loops annotated with OpenMP pragmas and the CUDA thread grids are run
    sequentially in index order.
\<close>

type_synonym u32 = "32 word"
type_synonym score_t = real

text \<open>
  Constants of the framework headers that the file uses but does not define. They are
  parameters of the model. \<open>VERTEX_BITS\<close> is the number of low bits of an encoded
  vertex identifier that hold the local identifier (the specification: high bits
  encode the partition, low bits the local vertex).
\<close>

record 'c totem_consts =
  INF_COST :: 'c
  VERTEX_BITS :: nat
  CENTRALITY_EXACT :: real

definition GET_VERTEX_ID :: "('c, 'z) totem_consts_scheme \<Rightarrow> nat \<Rightarrow> nat" where
  "GET_VERTEX_ID K x = x mod 2 ^ VERTEX_BITS K"

definition GET_PARTITION_ID :: "('c, 'z) totem_consts_scheme \<Rightarrow> nat \<Rightarrow> nat" where
  "GET_PARTITION_ID K x = x div 2 ^ VERTEX_BITS K"

datatype error_t = SUCCESS | FAILURE

datatype processor_type = PROCESSOR_CPU | PROCESSOR_GPU | PROCESSOR_MAX

text \<open>The outcome of a hook that contains an \<^verbatim>\<open>assert\<close>.\<close>

datatype abort = ASSERTION_FAILED

record graph_t =
  vertex_count :: nat
  edge_count :: nat
  vertices :: "nat \<Rightarrow> nat"
  edges :: "nat \<Rightarrow> nat"

text \<open>
  A box of the message fabric. The two value buffers are untyped in C and cast by their
  user: \<open>push_values\<close> is read as \<^verbatim>\<open>uint32_t*\<close> (forward phase), \<open>pull_values\<close> as
  \<^verbatim>\<open>score_t*\<close> (backward phase) and as \<^verbatim>\<open>cost_t*\<close> (distance synchronisation). Each
  typed view is a field of its own.
\<close>

record 'c grooves_box_table_t =
  count :: nat
  rmt_nbrs :: "nat \<Rightarrow> nat"
  push_values :: "nat \<Rightarrow> u32"
  pull_values :: "nat \<Rightarrow> score_t"
  pull_values_cost :: "nat \<Rightarrow> 'c"

text \<open>
  The pointers \<^verbatim>\<open>numSPs_f[pid]\<close> and \<^verbatim>\<open>delta[pid]\<close> alias other buffers. A pointer
  is the name of the buffer it points to.
\<close>

datatype u32_ptr = NUMSPS nat | OUTBOX_PUSH nat

datatype score_ptr = DELTA_LOCAL | OUTBOX_PULL nat

record 'c betweenness_state_t =
  distance :: "nat \<Rightarrow> nat \<Rightarrow> 'c"
  numSPs :: "nat \<Rightarrow> nat \<Rightarrow> u32"
  numSPs_f :: "nat \<Rightarrow> u32_ptr"
  delta :: "nat \<Rightarrow> score_ptr"
  delta_local :: "nat \<Rightarrow> score_t"
  done_flag :: bool
  level :: 'c
  betweenness :: "nat \<Rightarrow> score_t"
  frontier_list :: "nat \<Rightarrow> nat"
  frontier_count :: nat

record 'c partition_t =
  id_p :: nat
  subgraph :: graph_t
  processor :: processor_type
  outbox :: "nat \<Rightarrow> 'c grooves_box_table_t"
  inbox :: "nat \<Rightarrow> 'c grooves_box_table_t"
  map_p :: "nat \<Rightarrow> nat"
  algo_state :: "'c betweenness_state_t"

record betweenness_global_state_t =
  betweenness_score :: "(nat \<Rightarrow> score_t) option"
  betweenness_score_h :: "(nat \<Rightarrow> score_t) option"
  src :: nat
  epsilon :: real
  num_samples :: int

text \<open>
  What the hooks see of the engine: the number of partitions, the 1-based number of the
  current superstep, the number of vertices of the whole graph and the flag that
  \<^verbatim>\<open>engine_report_not_finished\<close> clears.
\<close>

record engine_t =
  partition_count :: nat
  superstep :: nat
  engine_vertex_count :: nat
  finished :: bool

subsection \<open>Memory helpers\<close>

definition totem_memset :: "(nat \<Rightarrow> 'a) \<Rightarrow> nat \<Rightarrow> 'a \<Rightarrow> nat \<Rightarrow> (nat \<Rightarrow> 'a)" where
  "totem_memset buf off v n = (\<lambda>i. if off \<le> i \<and> i < off + n then v else buf i)"

definition memcpy_n :: "(nat \<Rightarrow> 'a) \<Rightarrow> (nat \<Rightarrow> 'a) \<Rightarrow> nat \<Rightarrow> (nat \<Rightarrow> 'a)" where
  "memcpy_n dst srcb n = (\<lambda>i. if i < n then srcb i else dst i)"

text \<open>
  Modelled from the spec: \<^verbatim>\<open>engine_set_outbox\<close> is a function of the engine, which is
  not among the sources. The forward initialisation calls it to "initialize the outbox
  to 0": it stores the value in every slot of the push buffer of every outbox of the
  partition.
\<close>

definition engine_set_outbox ::
  "engine_t \<Rightarrow> u32 \<Rightarrow> 'c partition_t \<Rightarrow> 'c partition_t" where
  "engine_set_outbox eng v par =
     par\<lparr>outbox := (\<lambda>pid.
        if pid < partition_count eng \<and> pid \<noteq> id_p par
        then (outbox par pid)\<lparr>push_values :=
                totem_memset (push_values (outbox par pid)) 0 v (count (outbox par pid))\<rparr>
        else outbox par pid)\<rparr>"

section \<open>Forward phase: initialisation\<close>

definition init_forward_arrays ::
  "('w::len) word totem_consts \<Rightarrow> 'w word partition_t \<Rightarrow> nat \<Rightarrow>
   'w word betweenness_state_t \<Rightarrow> 'w word betweenness_state_t" where
  "init_forward_arrays K par pid state =
     (let cnt = (if pid \<noteq> id_p par then count (outbox par pid)
                 else vertex_count (subgraph par))
      in if cnt \<noteq> 0
         then state\<lparr>distance := (distance state)
                        (pid := totem_memset (distance state pid) 0 (INF_COST K) cnt),
                     numSPs := (numSPs state)
                        (pid := totem_memset (numSPs state pid) 0 0 cnt)\<rparr>
         else state)"

definition betweenness_init_forward ::
  "('w::len) word totem_consts \<Rightarrow> engine_t \<Rightarrow> betweenness_global_state_t \<Rightarrow>
   'w word partition_t \<Rightarrow> 'w word partition_t" where
  "betweenness_init_forward K eng bc_g par =
     (if vertex_count (subgraph par) = 0 then par
      else
        let state = algo_state par;
            src_pid = GET_PARTITION_ID K (src bc_g);
            src_vid = GET_VERTEX_ID K (src bc_g);
            state1 = fold (init_forward_arrays K par) [0..<partition_count eng] state;
            state2 = (if src_pid = id_p par
                      then state1\<lparr>distance := (distance state1)
                             (id_p par := totem_memset (distance state1 (id_p par)) src_vid 0 1),
                           numSPs := (numSPs state1)
                             (id_p par := totem_memset (numSPs state1 (id_p par)) src_vid 1 1)\<rparr>
                      else state1);
            par1 = engine_set_outbox eng 0 (par\<lparr>algo_state := state2\<rparr>)
        in par1\<lparr>algo_state := (algo_state par1)\<lparr>level := 0\<rparr>\<rparr>)"

section \<open>Forward phase: scatter\<close>

text \<open>
  \<^verbatim>\<open>betweenness_scatter_cpu\<close>: the loop body for one inbox slot, and the loop over the
  slots of the inbox.
\<close>

definition scatter_cpu_body ::
  "('w::len) word totem_consts \<Rightarrow> nat \<Rightarrow> 'w word grooves_box_table_t \<Rightarrow> nat \<Rightarrow>
   'w word betweenness_state_t \<Rightarrow> 'w word betweenness_state_t" where
  "scatter_cpu_body K pid inb index state =
     (if push_values inb index \<noteq> 0
      then
        let vid = rmt_nbrs inb index;
            state1 = (if distance state pid vid = INF_COST K
                      then state\<lparr>distance := (distance state)
                             (pid := (distance state pid)(vid := level state))\<rparr>
                      else state)
        in if distance state1 pid vid = level state1
           then state1\<lparr>numSPs := (numSPs state1)
                  (pid := (numSPs state1 pid)
                     (vid := numSPs state1 pid vid + push_values inb index))\<rparr>
           else state1
      else state)"

definition betweenness_scatter_cpu ::
  "('w::len) word totem_consts \<Rightarrow> nat \<Rightarrow> 'w word grooves_box_table_t \<Rightarrow>
   'w word betweenness_state_t \<Rightarrow> 'w word betweenness_state_t" where
  "betweenness_scatter_cpu K pid inb state =
     fold (scatter_cpu_body K pid inb) [0..<count inb] state"

text \<open>
  \<^verbatim>\<open>betweenness_scatter_kernel\<close>: the thread with global index \<open>index\<close>, on the two
  arrays and the level it is launched with; \<^verbatim>\<open>betweenness_scatter_gpu\<close> launches at
  least \<open>count\<close> threads, and the threads beyond \<open>count\<close> return at once.
\<close>

definition betweenness_scatter_kernel ::
  "('w::len) word totem_consts \<Rightarrow> 'w word grooves_box_table_t \<Rightarrow> 'w word \<Rightarrow> nat \<Rightarrow>
   (nat \<Rightarrow> 'w word) \<times> (nat \<Rightarrow> u32) \<Rightarrow> (nat \<Rightarrow> 'w word) \<times> (nat \<Rightarrow> u32)" where
  "betweenness_scatter_kernel K inb lvl index mem =
     (if index \<ge> count inb then mem
      else if push_values inb index \<noteq> 0
      then
        let vid = rmt_nbrs inb index;
            dist1 = (if fst mem vid = INF_COST K then (fst mem)(vid := lvl) else fst mem)
        in if dist1 vid = lvl
           then (dist1, (snd mem)(vid := snd mem vid + push_values inb index))
           else (dist1, snd mem)
      else mem)"

definition betweenness_scatter_gpu ::
  "('w::len) word totem_consts \<Rightarrow> 'w word partition_t \<Rightarrow> 'w word grooves_box_table_t \<Rightarrow>
   'w word betweenness_state_t \<Rightarrow> 'w word betweenness_state_t" where
  "betweenness_scatter_gpu K par inb state =
     (let mem = fold (betweenness_scatter_kernel K inb (level state)) [0..<count inb]
                  (distance state (id_p par), numSPs state (id_p par))
      in state\<lparr>distance := (distance state)(id_p par := fst mem),
               numSPs := (numSPs state)(id_p par := snd mem)\<rparr>)"

text \<open>
  \<^verbatim>\<open>betweenness_scatter_forward\<close>: the hook. The loop over the remote partitions stops
  with the failed assertion when the processor is neither a CPU nor a GPU.
\<close>

definition scatter_forward_body ::
  "('w::len) word totem_consts \<Rightarrow> 'w word partition_t \<Rightarrow> nat \<Rightarrow>
   abort + 'w word betweenness_state_t \<Rightarrow> abort + 'w word betweenness_state_t" where
  "scatter_forward_body K par rmt_pid r =
     (case r of Inl e \<Rightarrow> Inl e
      | Inr state \<Rightarrow>
          if rmt_pid = id_p par then Inr state
          else if count (inbox par rmt_pid) = 0 then Inr state
          else if processor par = PROCESSOR_CPU
               then Inr (betweenness_scatter_cpu K (id_p par) (inbox par rmt_pid) state)
          else if processor par = PROCESSOR_GPU
               then Inr (betweenness_scatter_gpu K par (inbox par rmt_pid) state)
          else Inl ASSERTION_FAILED)"

definition betweenness_scatter_forward ::
  "('w::len) word totem_consts \<Rightarrow> engine_t \<Rightarrow> 'w word partition_t \<Rightarrow>
   abort + 'w word partition_t" where
  "betweenness_scatter_forward K eng par =
     (if vertex_count (subgraph par) = 0 then Inr par
      else case fold (scatter_forward_body K par) [0..<partition_count eng]
                  (Inr (algo_state par)) of
             Inl e \<Rightarrow> Inl e
           | Inr state \<Rightarrow> Inr (par\<lparr>algo_state := state\<rparr>))"



subsection \<open>What a scatter delivers\<close>

text \<open>
  For an inbox: the sum of the values pushed to the local vertex \<open>v\<close> by the first \<open>n\<close>
  slots, and whether one of these slots carries a non-zero value for \<open>v\<close>. For the
  partition: the same over the inboxes of the first \<open>n\<close> partitions, its own excluded.
\<close>

definition inbox_pushed :: "'c grooves_box_table_t \<Rightarrow> nat \<Rightarrow> nat \<Rightarrow> u32" where
  "inbox_pushed inb n v =
     (\<Sum>i\<leftarrow>[0..<n]. if rmt_nbrs inb i = v then push_values inb i else 0)"

definition inbox_reaches :: "'c grooves_box_table_t \<Rightarrow> nat \<Rightarrow> nat \<Rightarrow> bool" where
  "inbox_reaches inb n v =
     (\<exists>i\<in>set [0..<n]. push_values inb i \<noteq> 0 \<and> rmt_nbrs inb i = v)"

definition scatter_pushed :: "'c partition_t \<Rightarrow> nat \<Rightarrow> nat \<Rightarrow> u32" where
  "scatter_pushed par n v =
     (\<Sum>q\<leftarrow>[0..<n]. if q = id_p par then 0
                    else inbox_pushed (inbox par q) (count (inbox par q)) v)"

definition scatter_reaches :: "'c partition_t \<Rightarrow> nat \<Rightarrow> nat \<Rightarrow> bool" where
  "scatter_reaches par n v =
     (\<exists>q\<in>set [0..<n]. q \<noteq> id_p par \<and>
        inbox_reaches (inbox par q) (count (inbox par q)) v)"

text \<open>
  The state after the vertices selected by \<open>r\<close> were reached at the current level and
  the values \<open>p\<close> were delivered to the vertices of partition \<open>pid\<close>.
\<close>

definition scatter_result ::
  "('w::len) word totem_consts \<Rightarrow> nat \<Rightarrow> (nat \<Rightarrow> bool) \<Rightarrow> (nat \<Rightarrow> u32) \<Rightarrow>
   'w word betweenness_state_t \<Rightarrow> 'w word betweenness_state_t" where
  "scatter_result K pid r p state =
    state\<lparr>distance := (distance state)(pid :=
        (\<lambda>v. if distance state pid v = INF_COST K \<and> r v
              then level state else distance state pid v)),
      numSPs := (numSPs state)(pid :=
        (\<lambda>v. numSPs state pid v +
           (if (if distance state pid v = INF_COST K \<and> r v
              then level state else distance state pid v) = level state
            then p v else 0)))\<rparr>"

section \<open>Forward phase: kernel\<close>

subsection \<open>Access through the aliasing pointers\<close>

definition read_u32 :: "'c partition_t \<Rightarrow> u32_ptr \<Rightarrow> nat \<Rightarrow> u32" where
  "read_u32 par p i =
     (case p of NUMSPS q \<Rightarrow> numSPs (algo_state par) q i
              | OUTBOX_PUSH q \<Rightarrow> push_values (outbox par q) i)"

definition write_u32 :: "'c partition_t \<Rightarrow> u32_ptr \<Rightarrow> nat \<Rightarrow> u32 \<Rightarrow> 'c partition_t" where
  "write_u32 par p i x =
     (case p of
        NUMSPS q \<Rightarrow>
          par\<lparr>algo_state := (algo_state par)\<lparr>numSPs := (numSPs (algo_state par))
                 (q := (numSPs (algo_state par) q)(i := x))\<rparr>\<rparr>
      | OUTBOX_PUSH q \<Rightarrow>
          par\<lparr>outbox := (outbox par)
                 (q := (outbox par q)\<lparr>push_values := (push_values (outbox par q))(i := x)\<rparr>)\<rparr>)"

text \<open>\<^verbatim>\<open>atomicAdd\<close> and \<^verbatim>\<open>__sync_fetch_and_add\<close> on a 32-bit cell.\<close>

definition atomic_add :: "'c partition_t \<Rightarrow> u32_ptr \<Rightarrow> nat \<Rightarrow> u32 \<Rightarrow> 'c partition_t" where
  "atomic_add par p i x = write_u32 par p i (read_u32 par p i + x)"

subsection \<open>The step for one neighbour\<close>

text \<open>
  The body that \<^verbatim>\<open>betweenness_forward_cpu\<close> and \<^verbatim>\<open>forward_process_neighbors\<close> share:
  the neighbour stored at position \<open>e\<close> of the edge array, the number of shortest paths
  \<open>x\<close> of the parent, and the local \<open>done\<close> flag.
\<close>

definition forward_neighbor ::
  "('w::len) word totem_consts \<Rightarrow> nat \<Rightarrow> u32 \<Rightarrow> 'w word partition_t \<times> bool \<Rightarrow>
   'w word partition_t \<times> bool" where
  "forward_neighbor K e x pd =
     (let par = fst pd;
          state = algo_state par;
          nbr = GET_VERTEX_ID K (edges (subgraph par) e);
          nbr_pid = GET_PARTITION_ID K (edges (subgraph par) e);
          pd1 = (if distance state nbr_pid nbr = INF_COST K
                 then (par\<lparr>algo_state := state\<lparr>distance := (distance state)
                          (nbr_pid := (distance state nbr_pid)(nbr := level state + 1))\<rparr>\<rparr>,
                       False)
                 else pd);
          state1 = algo_state (fst pd1)
      in if distance state1 nbr_pid nbr = level state1 + 1
         then (atomic_add (fst pd1) (numSPs_f state1 nbr_pid) nbr x, snd pd1)
         else pd1)"

subsection \<open>CPU\<close>

definition forward_cpu_edge ::
  "('w::len) word totem_consts \<Rightarrow> nat \<Rightarrow> nat \<Rightarrow> 'w word partition_t \<times> bool \<Rightarrow>
   'w word partition_t \<times> bool" where
  "forward_cpu_edge K v e pd =
     forward_neighbor K e (numSPs (algo_state (fst pd)) (id_p (fst pd)) v) pd"

definition forward_cpu_vertex ::
  "('w::len) word totem_consts \<Rightarrow> nat \<Rightarrow> 'w word partition_t \<times> bool \<Rightarrow>
   'w word partition_t \<times> bool" where
  "forward_cpu_vertex K v pd =
     (let par = fst pd
      in if distance (algo_state par) (id_p par) v = level (algo_state par)
         then fold (forward_cpu_edge K v)
                [vertices (subgraph par) v ..< vertices (subgraph par) (v + 1)] pd
         else pd)"

definition betweenness_forward_cpu ::
  "('w::len) word totem_consts \<Rightarrow> 'w word partition_t \<Rightarrow> 'w word partition_t" where
  "betweenness_forward_cpu K par =
     (let pd = fold (forward_cpu_vertex K) [0..<vertex_count (subgraph par)] (par, True)
      in if \<not> snd pd
         then (fst pd)\<lparr>algo_state := (algo_state (fst pd))\<lparr>done_flag := False\<rparr>\<rparr>
         else fst pd)"

subsection \<open>GPU\<close>

text \<open>
  The width of a virtual warp is a template parameter, instantiated with constants of
  a header that is not among the sources. The reduction of the backward kernel halves
  the width down to one, so the width is a power of two: \<open>2 ^ k\<close>.
\<close>

definition VWARP_WIDTH :: "nat \<Rightarrow> nat" where
  "VWARP_WIDTH k = 2 ^ k"

text \<open>
  \<^verbatim>\<open>forward_process_neighbors\<close> for the thread at \<open>warp_offset\<close>: the loop
  \<^verbatim>\<open>for (i = warp_offset; i < nbr_count; i += VWARP_WIDTH)\<close> over the neighbours that
  start at position \<open>nbrs\<close> of the edge array.
\<close>

function forward_process_neighbors ::
  "('w::len) word totem_consts \<Rightarrow> nat \<Rightarrow> nat \<Rightarrow> nat \<Rightarrow> u32 \<Rightarrow> nat \<Rightarrow>
   'w word partition_t \<times> bool \<Rightarrow> 'w word partition_t \<times> bool" where
  "forward_process_neighbors K k nbrs nbr_count v_numSPs i pd =
     (if i < nbr_count
      then forward_process_neighbors K k nbrs nbr_count v_numSPs (i + VWARP_WIDTH k)
             (forward_neighbor K (nbrs + i) v_numSPs pd)
      else pd)"
  by pat_completeness auto
termination
  by (relation "measure (\<lambda>(K, k, nbrs, nbr_count, v_numSPs, i, pd). nbr_count - i)")
     (simp_all add: VWARP_WIDTH_def diff_less_mono2)

declare forward_process_neighbors.simps [simp del]

text \<open>
  \<^verbatim>\<open>build_frontier\<close>: the local vertices at the level, compacted into \<open>frontier_list\<close>.
  The kernel appends them in the order in which the thread blocks reach their atomic
  add; the model takes the ascending order.
\<close>

definition build_frontier :: "('w::len) word partition_t \<Rightarrow> 'w word \<Rightarrow> 'w word partition_t" where
  "build_frontier par lvl =
     (let fr = filter (\<lambda>v. distance (algo_state par) (id_p par) v = lvl)
                 [0..<vertex_count (subgraph par)]
      in par\<lparr>algo_state := (algo_state par)
            \<lparr>frontier_list := (\<lambda>i. if i < length fr then fr ! i
                                    else frontier_list (algo_state par) i),
             frontier_count := length fr\<rparr>\<rparr>)"

text \<open>
  \<^verbatim>\<open>betweenness_gpu_forward_kernel\<close>: every vertex of the frontier is handled by one
  virtual warp, whose threads are run one after the other.
\<close>

definition forward_gpu_vertex ::
  "('w::len) word totem_consts \<Rightarrow> nat \<Rightarrow> nat \<Rightarrow> 'w word partition_t \<times> bool \<Rightarrow>
   'w word partition_t \<times> bool" where
  "forward_gpu_vertex K k i pd =
     (let par = fst pd;
          v = frontier_list (algo_state par) i;
          nbr_count = vertices (subgraph par) (v + 1) - vertices (subgraph par) v;
          nbrs = vertices (subgraph par) v;
          v_numSPs = numSPs (algo_state par) (id_p par) v
      in fold (\<lambda>warp_offset. forward_process_neighbors K k nbrs nbr_count v_numSPs warp_offset)
           [0..<VWARP_WIDTH k] pd)"

definition betweenness_gpu_forward_kernel ::
  "('w::len) word totem_consts \<Rightarrow> nat \<Rightarrow> 'w word partition_t \<Rightarrow> 'w word partition_t" where
  "betweenness_gpu_forward_kernel K k par =
     (let pd = fold (forward_gpu_vertex K k) [0..<frontier_count (algo_state par)] (par, True)
      in if \<not> snd pd
         then (fst pd)\<lparr>algo_state := (algo_state (fst pd))\<lparr>done_flag := False\<rparr>\<rparr>
         else fst pd)"

definition betweenness_forward_gpu ::
  "('w::len) word totem_consts \<Rightarrow> nat \<Rightarrow> engine_t \<Rightarrow> 'w word partition_t \<Rightarrow>
   'w word partition_t" where
  "betweenness_forward_gpu K k eng par =
     (let par1 = engine_set_outbox eng 0 par;
          par2 = build_frontier par1 (level (algo_state par1))
      in if frontier_count (algo_state par2) = 0 then par2
         else betweenness_gpu_forward_kernel K k par2)"

subsection \<open>The kernel hook\<close>

definition betweenness_forward ::
  "('w::len) word totem_consts \<Rightarrow> nat \<Rightarrow> engine_t \<Rightarrow> 'w word partition_t \<Rightarrow>
   abort + 'w word partition_t" where
  "betweenness_forward K k eng par =
     (if vertex_count (subgraph par) = 0 then Inr par
      else
        let state = algo_state par;
            par1 = par\<lparr>algo_state := state\<lparr>numSPs_f := (\<lambda>pid.
                      if pid < partition_count eng \<and> pid \<noteq> id_p par then OUTBOX_PUSH pid
                      else numSPs_f state pid)\<rparr>\<rparr>;
            r = (if processor par1 = PROCESSOR_CPU then Inr (betweenness_forward_cpu K par1)
                 else if processor par1 = PROCESSOR_GPU
                 then Inr (betweenness_forward_gpu K k eng par1)
                 else Inl ASSERTION_FAILED)
        in case r of
             Inl e \<Rightarrow> Inl e
           | Inr par2 \<Rightarrow>
               Inr (par2\<lparr>algo_state := (algo_state par2)
                      \<lparr>level := level (algo_state par2) + 1\<rparr>\<rparr>))"

subsection \<open>What a forward kernel delivers\<close>

text \<open>
  A kernel handles a list of pairs \<open>(e, x)\<close>: the position of a neighbour in the edge
  array and the number of shortest paths of the parent. \<open>forward_reached\<close> says whether
  the list holds the entry \<open>i\<close> of partition \<open>q\<close> as a neighbour, \<open>forward_pushed\<close> sums
  the path counts of its parents in the list, and \<open>forward_found\<close> says whether a
  neighbour in the list is unreached in the state.
\<close>

definition edge_target :: "('c, 'z) totem_consts_scheme \<Rightarrow> graph_t \<Rightarrow> nat \<Rightarrow> nat \<times> nat" where
  "edge_target K g e = (GET_PARTITION_ID K (edges g e), GET_VERTEX_ID K (edges g e))"

definition forward_reached ::
  "('c, 'z) totem_consts_scheme \<Rightarrow> graph_t \<Rightarrow> (nat \<times> u32) list \<Rightarrow> nat \<Rightarrow> nat \<Rightarrow> bool" where
  "forward_reached K g L q i = (\<exists>a\<in>set L. edge_target K g (fst a) = (q, i))"

definition forward_pushed ::
  "('c, 'z) totem_consts_scheme \<Rightarrow> graph_t \<Rightarrow> (nat \<times> u32) list \<Rightarrow> nat \<Rightarrow> nat \<Rightarrow> u32" where
  "forward_pushed K g L q i =
     (\<Sum>a\<leftarrow>L. if edge_target K g (fst a) = (q, i) then snd a else 0)"

definition forward_found ::
  "('w::len) word totem_consts \<Rightarrow> 'w word partition_t \<Rightarrow> (nat \<times> u32) list \<Rightarrow> bool" where
  "forward_found K par L =
     (\<exists>a\<in>set L. distance (algo_state par) (fst (edge_target K (subgraph par) (fst a)))
                    (snd (edge_target K (subgraph par) (fst a))) = INF_COST K)"

definition forward_distance ::
  "('w::len) word totem_consts \<Rightarrow> 'w word partition_t \<Rightarrow> (nat \<times> u32) list \<Rightarrow>
   nat \<Rightarrow> nat \<Rightarrow> 'w word" where
  "forward_distance K par L q i =
     (if distance (algo_state par) q i = INF_COST K \<and> forward_reached K (subgraph par) L q i
      then level (algo_state par) + 1 else distance (algo_state par) q i)"

definition forward_added ::
  "('w::len) word totem_consts \<Rightarrow> 'w word partition_t \<Rightarrow> (nat \<times> u32) list \<Rightarrow>
   nat \<Rightarrow> nat \<Rightarrow> u32" where
  "forward_added K par L q i =
     (if forward_distance K par L q i = level (algo_state par) + 1
      then forward_pushed K (subgraph par) L q i else 0)"

definition forward_result ::
  "('w::len) word totem_consts \<Rightarrow> (nat \<times> u32) list \<Rightarrow> 'w word partition_t \<times> bool \<Rightarrow>
   'w word partition_t \<times> bool" where
  "forward_result K L pd =
     (let par = fst pd; state = algo_state par
      in (par\<lparr>algo_state := state
              \<lparr>distance := (\<lambda>q i. forward_distance K par L q i),
               numSPs := (\<lambda>q i. if q = id_p par
                                 then numSPs state q i + forward_added K par L q i
                                 else numSPs state q i)\<rparr>,
            outbox := (\<lambda>q. if q = id_p par then outbox par q
                            else (outbox par q)\<lparr>push_values :=
                                   (\<lambda>i. push_values (outbox par q) i +
                                        forward_added K par L q i)\<rparr>)\<rparr>,
          snd pd \<and> \<not> forward_found K par L))"

text \<open>The pairs that the CPU kernel handles, in its order.\<close>

definition forward_cpu_work :: "('w::len) word partition_t \<Rightarrow> (nat \<times> u32) list" where
  "forward_cpu_work par =
     concat (map (\<lambda>v. map (\<lambda>e. (e, numSPs (algo_state par) (id_p par) v))
                        [vertices (subgraph par) v ..< vertices (subgraph par) (v + 1)])
              (filter (\<lambda>v. distance (algo_state par) (id_p par) v = level (algo_state par))
                 [0..<vertex_count (subgraph par)]))"

text \<open>The same for the first \<open>n\<close> vertices.\<close>

definition forward_cpu_work_upto :: "('w::len) word partition_t \<Rightarrow> nat \<Rightarrow> (nat \<times> u32) list" where
  "forward_cpu_work_upto par n =
     concat (map (\<lambda>v. map (\<lambda>e. (e, numSPs (algo_state par) (id_p par) v))
                        [vertices (subgraph par) v ..< vertices (subgraph par) (v + 1)])
              (filter (\<lambda>v. distance (algo_state par) (id_p par) v = level (algo_state par))
                 [0..<n]))"

text \<open>The pointers of the forward phase, as the initialisation and the hook set them.\<close>

definition forward_pointers :: "'c partition_t \<Rightarrow> nat \<Rightarrow> bool" where
  "forward_pointers par q =
     (numSPs_f (algo_state par) q = (if q = id_p par then NUMSPS q else OUTBOX_PUSH q))"

text \<open>
  The positions that the loop \<^verbatim>\<open>for (i = warp_offset; i < nbr_count; i += VWARP_WIDTH)\<close>
  visits from \<open>i\<close> on, and the pairs that the GPU kernel handles for the frontier
  vertex \<open>v\<close>: thread after thread of its virtual warp.
\<close>

function strided :: "nat \<Rightarrow> nat \<Rightarrow> nat \<Rightarrow> nat list" where
  "strided k n i = (if i < n then i # strided k n (i + VWARP_WIDTH k) else [])"
  by pat_completeness auto
termination
  by (relation "measure (\<lambda>(k, n, i). n - i)")
     (simp_all add: VWARP_WIDTH_def diff_less_mono2)

declare strided.simps [simp del]

definition forward_gpu_work_vertex ::
  "nat \<Rightarrow> ('w::len) word partition_t \<Rightarrow> nat \<Rightarrow> (nat \<times> u32) list" where
  "forward_gpu_work_vertex k par v =
     concat (map (\<lambda>warp_offset.
                    map (\<lambda>j. (vertices (subgraph par) v + j, numSPs (algo_state par) (id_p par) v))
                      (strided k (vertices (subgraph par) (v + 1) - vertices (subgraph par) v)
                         warp_offset))
               [0..<VWARP_WIDTH k])"

definition forward_cpu_work_vertex ::
  "('w::len) word partition_t \<Rightarrow> nat \<Rightarrow> (nat \<times> u32) list" where
  "forward_cpu_work_vertex par v =
     map (\<lambda>e. (e, numSPs (algo_state par) (id_p par) v))
       [vertices (subgraph par) v ..< vertices (subgraph par) (v + 1)]"

section \<open>Backward phase\<close>

definition read_score :: "'c partition_t \<Rightarrow> score_ptr \<Rightarrow> nat \<Rightarrow> score_t" where
  "read_score par p i =
     (case p of DELTA_LOCAL \<Rightarrow> delta_local (algo_state par) i
              | OUTBOX_PULL q \<Rightarrow> pull_values (outbox par q) i)"

definition write_score :: "'c partition_t \<Rightarrow> score_ptr \<Rightarrow> nat \<Rightarrow> score_t \<Rightarrow> 'c partition_t" where
  "write_score par p i x =
     (case p of
        DELTA_LOCAL \<Rightarrow>
          par\<lparr>algo_state := (algo_state par)
                 \<lparr>delta_local := (delta_local (algo_state par))(i := x)\<rparr>\<rparr>
      | OUTBOX_PULL q \<Rightarrow>
          par\<lparr>outbox := (outbox par)
                 (q := (outbox par q)\<lparr>pull_values := (pull_values (outbox par q))(i := x)\<rparr>)\<rparr>)"

definition memset_score ::
  "'c partition_t \<Rightarrow> score_ptr \<Rightarrow> score_t \<Rightarrow> nat \<Rightarrow> 'c partition_t" where
  "memset_score par p x n =
     (case p of
        DELTA_LOCAL \<Rightarrow>
          par\<lparr>algo_state := (algo_state par)
                 \<lparr>delta_local := totem_memset (delta_local (algo_state par)) 0 x n\<rparr>\<rparr>
      | OUTBOX_PULL q \<Rightarrow>
          par\<lparr>outbox := (outbox par)
                 (q := (outbox par q)\<lparr>pull_values :=
                         totem_memset (pull_values (outbox par q)) 0 x n\<rparr>)\<rparr>)"

text \<open>The cast \<^verbatim>\<open>(score_t)\<close> of a 32-bit count.\<close>

definition score_of_u32 :: "u32 \<Rightarrow> score_t" where
  "score_of_u32 x = real (unat x)"

text \<open>
  The contribution of the neighbour at position \<open>e\<close> of the edge array to the
  dependency of a vertex with \<open>v_numSPs\<close> shortest paths: the neighbour counts when its
  distance is \<open>level + 1\<close>.
\<close>

definition backward_term ::
  "('w::len) word totem_consts \<Rightarrow> 'w word partition_t \<Rightarrow> u32 \<Rightarrow> nat \<Rightarrow> score_t option" where
  "backward_term K par v_numSPs e =
     (let state = algo_state par;
          nbr = GET_VERTEX_ID K (edges (subgraph par) e);
          nbr_pid = GET_PARTITION_ID K (edges (subgraph par) e)
      in if distance state nbr_pid nbr = level state + 1
         then Some ((score_of_u32 v_numSPs / score_of_u32 (numSPs state nbr_pid nbr)) *
                    (read_score par (delta state nbr_pid) nbr + 1))
         else None)"

subsection \<open>CPU\<close>

definition backward_cpu_edge ::
  "('w::len) word totem_consts \<Rightarrow> nat \<Rightarrow> nat \<Rightarrow> 'w word partition_t \<Rightarrow> 'w word partition_t" where
  "backward_cpu_edge K v e par =
     (let state = algo_state par
      in case backward_term K par (numSPs state (id_p par) v) e of
           Some t \<Rightarrow> write_score par (delta state (id_p par)) v
                       (read_score par (delta state (id_p par)) v + t)
         | None \<Rightarrow> par)"

definition backward_cpu_vertex ::
  "('w::len) word totem_consts \<Rightarrow> nat \<Rightarrow> 'w word partition_t \<Rightarrow> 'w word partition_t" where
  "backward_cpu_vertex K v par =
     (if distance (algo_state par) (id_p par) v = level (algo_state par)
      then
        let par1 = fold (backward_cpu_edge K v)
                     [vertices (subgraph par) v ..< vertices (subgraph par) (v + 1)] par;
            state1 = algo_state par1
        in par1\<lparr>algo_state := state1\<lparr>betweenness := (betweenness state1)
                  (v := betweenness state1 v + read_score par1 (delta state1 (id_p par1)) v)\<rparr>\<rparr>
      else par)"

definition betweenness_backward_cpu ::
  "('w::len) word totem_consts \<Rightarrow> 'w word partition_t \<Rightarrow> 'w word partition_t" where
  "betweenness_backward_cpu K par =
     fold (backward_cpu_vertex K) [0..<vertex_count (subgraph par)] par"

subsection \<open>GPU\<close>

text \<open>
  \<^verbatim>\<open>backward_process_neighbors\<close>, first loop: the partial sum of the thread at
  \<open>warp_offset\<close>, which starts from \<open>0\<close> and visits the neighbours \<open>warp_offset\<close>,
  \<open>warp_offset + VWARP_WIDTH\<close>, ...
\<close>

function backward_lane_sum ::
  "('w::len) word totem_consts \<Rightarrow> nat \<Rightarrow> 'w word partition_t \<Rightarrow> nat \<Rightarrow> nat \<Rightarrow> u32 \<Rightarrow>
   nat \<Rightarrow> score_t \<Rightarrow> score_t" where
  "backward_lane_sum K k par nbrs nbr_count v_numSPs i acc =
     (if i < nbr_count
      then backward_lane_sum K k par nbrs nbr_count v_numSPs (i + VWARP_WIDTH k)
             (case backward_term K par v_numSPs (nbrs + i) of
                Some t \<Rightarrow> acc + t | None \<Rightarrow> acc)
      else acc)"
  by pat_completeness auto
termination
  by (relation "measure (\<lambda>(K, k, par, nbrs, nbr_count, v_numSPs, i, acc). nbr_count - i)")
     (simp_all add: VWARP_WIDTH_def diff_less_mono2)

declare backward_lane_sum.simps [simp del]

text \<open>
  Second loop: \<^verbatim>\<open>for (s = VWARP_WIDTH / 2; s > 0; s >>= 1)\<close>; in each round every
  thread below \<open>s\<close> adds the entry \<open>s\<close> places above its own to its own entry of the
  shared array.
\<close>

definition vwarp_reduce_step :: "nat \<Rightarrow> (nat \<Rightarrow> score_t) \<Rightarrow> (nat \<Rightarrow> score_t)" where
  "vwarp_reduce_step s a = (\<lambda>j. if j < s then a j + a (j + s) else a j)"

function vwarp_reduce :: "nat \<Rightarrow> (nat \<Rightarrow> score_t) \<Rightarrow> (nat \<Rightarrow> score_t)" where
  "vwarp_reduce s a = (if s > 0 then vwarp_reduce (s div 2) (vwarp_reduce_step s a) else a)"
  by pat_completeness auto
termination
  by (relation "measure (\<lambda>(s, a). s)") simp_all

declare vwarp_reduce.simps [simp del]

definition backward_process_neighbors ::
  "('w::len) word totem_consts \<Rightarrow> nat \<Rightarrow> nat \<Rightarrow> nat \<Rightarrow> u32 \<Rightarrow> nat \<Rightarrow>
   'w word partition_t \<Rightarrow> 'w word partition_t" where
  "backward_process_neighbors K k nbrs nbr_count v_numSPs v par =
     (let state = algo_state par;
          vwarp_delta_s = (\<lambda>warp_offset.
             if warp_offset < VWARP_WIDTH k
             then backward_lane_sum K k par nbrs nbr_count v_numSPs warp_offset 0 else 0);
          total = vwarp_reduce (VWARP_WIDTH k div 2) vwarp_delta_s 0
      in if total \<noteq> 0
         then let par1 = write_score par (delta state (id_p par)) v total;
                  state1 = algo_state par1
              in par1\<lparr>algo_state := state1\<lparr>betweenness := (betweenness state1)
                       (v := betweenness state1 v + total)\<rparr>\<rparr>
         else par)"

definition backward_gpu_vertex ::
  "('w::len) word totem_consts \<Rightarrow> nat \<Rightarrow> nat \<Rightarrow> 'w word partition_t \<Rightarrow> 'w word partition_t" where
  "backward_gpu_vertex K k i par =
     (let v = frontier_list (algo_state par) i;
          nbr_count = vertices (subgraph par) (v + 1) - vertices (subgraph par) v;
          nbrs = vertices (subgraph par) v
      in backward_process_neighbors K k nbrs nbr_count
           (numSPs (algo_state par) (id_p par) v) v par)"

definition betweenness_gpu_backward_kernel ::
  "('w::len) word totem_consts \<Rightarrow> nat \<Rightarrow> 'w word partition_t \<Rightarrow> 'w word partition_t" where
  "betweenness_gpu_backward_kernel K k par =
     fold (backward_gpu_vertex K k) [0..<frontier_count (algo_state par)] par"

definition betweenness_backward_gpu ::
  "('w::len) word totem_consts \<Rightarrow> nat \<Rightarrow> 'w word partition_t \<Rightarrow> 'w word partition_t" where
  "betweenness_backward_gpu K k par =
     (let par1 = build_frontier par (level (algo_state par))
      in if frontier_count (algo_state par1) = 0 then par1
         else betweenness_gpu_backward_kernel K k par1)"

subsection \<open>The kernel hook\<close>

text \<open>
  Modelled from the spec: \<^verbatim>\<open>engine_report_not_finished\<close> is a function of the engine,
  which is not among the sources; a hook calls it "to force at least one more
  superstep".
\<close>

definition engine_report_not_finished :: "engine_t \<Rightarrow> engine_t" where
  "engine_report_not_finished eng = eng\<lparr>finished := False\<rparr>"

definition betweenness_backward ::
  "('w::len) word totem_consts \<Rightarrow> nat \<Rightarrow> engine_t \<Rightarrow> 'w word partition_t \<Rightarrow>
   abort + engine_t \<times> 'w word partition_t" where
  "betweenness_backward K k eng par =
     (if vertex_count (subgraph par) = 0 then Inr (eng, par)
      else
        let state = algo_state par;
            par1 = par\<lparr>algo_state := state\<lparr>delta := (\<lambda>pid.
                      if pid < partition_count eng \<and> pid \<noteq> id_p par then OUTBOX_PULL pid
                      else delta state pid)\<rparr>\<rparr>;
            r = (if superstep eng > 1
                 then if processor par1 = PROCESSOR_CPU
                      then Inr (betweenness_backward_cpu K par1)
                      else if processor par1 = PROCESSOR_GPU
                      then Inr (betweenness_backward_gpu K k par1)
                      else Inl ASSERTION_FAILED
                 else Inr par1)
        in case r of
             Inl e \<Rightarrow> Inl e
           | Inr par2 \<Rightarrow>
               let par3 = par2\<lparr>algo_state := (algo_state par2)
                            \<lparr>level := level (algo_state par2) - 1\<rparr>\<rparr>
               in if level (algo_state par3) > 0
                  then Inr (engine_report_not_finished eng, par3)
                  else Inr (eng, par3))"

subsection \<open>Gather and initialisation\<close>

text \<open>
  \<^verbatim>\<open>betweenness_gather_cpu\<close> and the thread \<open>index\<close> of \<^verbatim>\<open>betweenness_gather_kernel\<close>
  have the same body; \<open>values\<close> is the pull buffer of the inbox.
\<close>

definition gather_slot ::
  "('w::len) word partition_t \<Rightarrow> 'w word grooves_box_table_t \<Rightarrow> nat \<Rightarrow>
   (nat \<Rightarrow> score_t) \<Rightarrow> (nat \<Rightarrow> score_t)" where
  "gather_slot par inb index values =
     (let state = algo_state par;
          vid = rmt_nbrs inb index
      in if distance state (id_p par) vid = level state + 1
         then values(index := read_score par (delta state (id_p par)) vid)
         else values)"

definition betweenness_gather ::
  "('w::len) word partition_t \<Rightarrow> 'w word grooves_box_table_t \<Rightarrow> (nat \<Rightarrow> score_t)" where
  "betweenness_gather par inb = fold (gather_slot par inb) [0..<count inb] (pull_values inb)"

definition gather_backward_body ::
  "nat \<Rightarrow> abort + ('w::len) word partition_t \<Rightarrow> abort + 'w word partition_t" where
  "gather_backward_body rmt_pid r =
     (case r of Inl e \<Rightarrow> Inl e
      | Inr par \<Rightarrow>
          if rmt_pid = id_p par then Inr par
          else if count (inbox par rmt_pid) = 0 then Inr par
          else if processor par = PROCESSOR_CPU \<or> processor par = PROCESSOR_GPU
               then Inr (par\<lparr>inbox := (inbox par)(rmt_pid := (inbox par rmt_pid)
                            \<lparr>pull_values := betweenness_gather par (inbox par rmt_pid)\<rparr>)\<rparr>)
          else Inl ASSERTION_FAILED)"

definition betweenness_gather_backward ::
  "engine_t \<Rightarrow> ('w::len) word partition_t \<Rightarrow> abort + engine_t \<times> 'w word partition_t" where
  "betweenness_gather_backward eng par =
     (if vertex_count (subgraph par) = 0 then Inr (eng, par)
      else case fold gather_backward_body [0..<partition_count eng] (Inr par) of
             Inl e \<Rightarrow> Inl e
           | Inr par1 \<Rightarrow> Inr (eng, par1))"

definition betweenness_init_backward ::
  "engine_t \<Rightarrow> ('w::len) word partition_t \<Rightarrow> abort + engine_t \<times> 'w word partition_t" where
  "betweenness_init_backward eng par =
     (if vertex_count (subgraph par) = 0 then Inr (eng, par)
      else Inr (eng, memset_score par (delta (algo_state par) (id_p par)) 0
                       (vertex_count (subgraph par))))"

subsection \<open>What a backward kernel delivers\<close>

text \<open>
  The dependency of the neighbour \<open>i\<close> of partition \<open>q\<close> as the partition sees it: its
  own array for a local neighbour, the pull buffer of the outbox for a remote one.
\<close>

definition neighbor_delta :: "'c partition_t \<Rightarrow> nat \<Rightarrow> nat \<Rightarrow> score_t" where
  "neighbor_delta par q i =
     (if q = id_p par then delta_local (algo_state par) i else pull_values (outbox par q) i)"

text \<open>
  The term \<open>(numSPs[v] / numSPs[w]) * (delta[w] + 1)\<close> of the neighbour \<open>w\<close> at position
  \<open>e\<close> of the edge array when the distance of \<open>w\<close> is \<open>level + 1\<close>, and \<open>0\<close> otherwise;
  their sum over the neighbours of the local vertex \<open>v\<close>.
\<close>

definition dependency_term ::
  "('w::len) word totem_consts \<Rightarrow> 'w word partition_t \<Rightarrow> nat \<Rightarrow> nat \<Rightarrow> score_t" where
  "dependency_term K par v e =
     (let state = algo_state par;
          q = fst (edge_target K (subgraph par) e);
          i = snd (edge_target K (subgraph par) e)
      in if distance state q i = level state + 1
         then (real (unat (numSPs state (id_p par) v)) / real (unat (numSPs state q i))) *
              (neighbor_delta par q i + 1)
         else 0)"

definition dependency_sum ::
  "('w::len) word totem_consts \<Rightarrow> 'w word partition_t \<Rightarrow> nat \<Rightarrow> score_t" where
  "dependency_sum K par v =
     (\<Sum>e\<leftarrow>[vertices (subgraph par) v ..< vertices (subgraph par) (v + 1)].
        dependency_term K par v e)"

definition at_level :: "('w::len) word partition_t \<Rightarrow> nat \<Rightarrow> bool" where
  "at_level par v =
     (v < vertex_count (subgraph par) \<and>
      distance (algo_state par) (id_p par) v = level (algo_state par))"

text \<open>The pointers of the backward phase, as the initialisation and the hook set them.\<close>

definition backward_pointers :: "'c partition_t \<Rightarrow> nat \<Rightarrow> bool" where
  "backward_pointers par q =
     (delta (algo_state par) q = (if q = id_p par then DELTA_LOCAL else OUTBOX_PULL q))"

text \<open>The partition with other contents of the local dependency and score arrays.\<close>

definition with_scores ::
  "'c partition_t \<Rightarrow> (nat \<Rightarrow> score_t) \<Rightarrow> (nat \<Rightarrow> score_t) \<Rightarrow> 'c partition_t" where
  "with_scores par D B =
     par\<lparr>algo_state := (algo_state par)\<lparr>delta_local := D, betweenness := B\<rparr>\<rparr>"

section \<open>Synchronisation of the distances\<close>

text \<open>
  Modelled from the spec: \<^verbatim>\<open>engine_gather_inbox\<close> is a function of the engine, which
  is not among the sources. The gather hook of the distance round calls it with the
  local distance array; it stages, for every remote partition, the value of the local
  vertex \<open>rmt_nbrs[i]\<close> in slot \<open>i\<close> of the pull buffer that the remote partition
  receives ("each partition, in its gather hook, stages its own authoritative local
  distance into the pull buffers keyed by which slots a remote partition asks for").
  The pull buffer written by a gather hook is the one of the inbox, as in
  \<^verbatim>\<open>betweenness_gather_backward\<close>.
\<close>

definition engine_gather_inbox ::
  "engine_t \<Rightarrow> (nat \<Rightarrow> 'c) \<Rightarrow> 'c partition_t \<Rightarrow> 'c partition_t" where
  "engine_gather_inbox eng srcb par =
     par\<lparr>inbox := (\<lambda>q.
        if q < partition_count eng \<and> q \<noteq> id_p par
        then (inbox par q)\<lparr>pull_values_cost := (\<lambda>i.
                if i < count (inbox par q) then srcb (rmt_nbrs (inbox par q) i)
                else pull_values_cost (inbox par q) i)\<rparr>
        else inbox par q)\<rparr>"

definition betweenness_gather_distance ::
  "engine_t \<Rightarrow> ('w::len) word partition_t \<Rightarrow> abort + engine_t \<times> 'w word partition_t" where
  "betweenness_gather_distance eng par =
     Inr (eng, engine_gather_inbox eng (distance (algo_state par) (id_p par)) par)"

definition synch_distance_body ::
  "('w::len) word partition_t \<Rightarrow> nat \<Rightarrow> 'w word betweenness_state_t \<Rightarrow>
   'w word betweenness_state_t" where
  "synch_distance_body par rmt_pid state =
     (if id_p par = rmt_pid then state
      else state\<lparr>distance := (distance state)
             (rmt_pid := memcpy_n (distance state rmt_pid)
                           (pull_values_cost (outbox par rmt_pid))
                           (count (outbox par rmt_pid)))\<rparr>)"

definition betweenness_synch_distance ::
  "engine_t \<Rightarrow> ('w::len) word partition_t \<Rightarrow> abort + engine_t \<times> 'w word partition_t" where
  "betweenness_synch_distance eng par =
     (if superstep eng = 1 then Inr (engine_report_not_finished eng, par)
      else Inr (eng, par\<lparr>algo_state :=
                  fold (synch_distance_body par) [0..<partition_count eng] (algo_state par)\<rparr>))"

section \<open>The engine, for a round in the pull direction\<close>

text \<open>
  Modelled from the spec: the execution engine is not among the sources. A round runs
  supersteps until no partition has reported that it is not finished. A superstep sets
  the finished flag, runs the initialisation hook of every partition when it is the
  first one, then the kernel hook of every partition, then the gather hook of every
  partition, and then moves the pull buffers: what partition \<open>q\<close> gathered for
  partition \<open>p\<close> (the pull buffer of \<open>inbox[p]\<close> of \<open>q\<close>) arrives in the pull buffer of
  \<open>outbox[q]\<close> of \<open>p\<close>, where the kernel hooks read it. The hooks of one kind run one
  partition after the other; a hook changes its own partition and the finished flag
  only. The finalisation and aggregation hooks of the last superstep are not part of
  the loop.
\<close>

type_synonym 'c hook = "engine_t \<Rightarrow> 'c partition_t \<Rightarrow> abort + engine_t \<times> 'c partition_t"

fun run_hook :: "'c hook \<Rightarrow> engine_t \<Rightarrow> 'c partition_t list \<Rightarrow>
    abort + engine_t \<times> 'c partition_t list" where
  "run_hook h eng [] = Inr (eng, [])"
| "run_hook h eng (p # ps) =
     (case h eng p of
        Inl e \<Rightarrow> Inl e
      | Inr ep \<Rightarrow>
          (case run_hook h (fst ep) ps of
             Inl e \<Rightarrow> Inl e
           | Inr eps \<Rightarrow> Inr (fst eps, snd ep # snd eps)))"

definition receive_pull :: "'c partition_t list \<Rightarrow> nat \<Rightarrow> 'c partition_t \<Rightarrow> 'c partition_t" where
  "receive_pull ps p par =
     par\<lparr>outbox := (\<lambda>q.
        if q < length ps \<and> q \<noteq> p
        then (outbox par q)
               \<lparr>pull_values := memcpy_n (pull_values (outbox par q))
                                 (pull_values (inbox (ps ! q) p)) (count (outbox par q)),
                pull_values_cost := memcpy_n (pull_values_cost (outbox par q))
                                 (pull_values_cost (inbox (ps ! q) p)) (count (outbox par q))\<rparr>
        else outbox par q)\<rparr>"

definition engine_exchange_pull :: "'c partition_t list \<Rightarrow> 'c partition_t list" where
  "engine_exchange_pull ps = map (\<lambda>p. receive_pull ps p (ps ! p)) [0..<length ps]"

record 'c engine_config_t =
  par_kernel_func :: "'c hook"
  par_gather_func :: "'c hook"
  par_init_func :: "'c hook option"

fun engine_supersteps ::
  "nat \<Rightarrow> 'c engine_config_t \<Rightarrow> engine_t \<Rightarrow> 'c partition_t list \<Rightarrow>
   (abort + engine_t \<times> 'c partition_t list) option" where
  "engine_supersteps 0 cfg eng ps = None"
| "engine_supersteps (Suc fuel) cfg eng ps =
     (let eng1 = eng\<lparr>superstep := superstep eng + 1, finished := True\<rparr>
      in case (if superstep eng1 = 1
               then (case par_init_func cfg of None \<Rightarrow> Inr (eng1, ps)
                     | Some h \<Rightarrow> run_hook h eng1 ps)
               else Inr (eng1, ps)) of
           Inl e \<Rightarrow> Some (Inl e)
         | Inr s2 \<Rightarrow>
             (case run_hook (par_kernel_func cfg) (fst s2) (snd s2) of
                Inl e \<Rightarrow> Some (Inl e)
              | Inr s3 \<Rightarrow>
                  (case run_hook (par_gather_func cfg) (fst s3) (snd s3) of
                     Inl e \<Rightarrow> Some (Inl e)
                   | Inr s4 \<Rightarrow>
                       if finished (fst s4)
                       then Some (Inr (fst s4, engine_exchange_pull (snd s4)))
                       else engine_supersteps fuel cfg (fst s4)
                              (engine_exchange_pull (snd s4)))))"

definition engine_execute ::
  "nat \<Rightarrow> 'c engine_config_t \<Rightarrow> engine_t \<Rightarrow> 'c partition_t list \<Rightarrow>
   (abort + engine_t \<times> 'c partition_t list) option" where
  "engine_execute fuel cfg eng ps = engine_supersteps fuel cfg (eng\<lparr>superstep := 0\<rparr>) ps"

text \<open>The rounds that \<^verbatim>\<open>betweenness_hybrid_core\<close> configures in the pull direction.\<close>

definition config_distance_state :: "('w::len) word engine_config_t" where
  "config_distance_state =
     \<lparr>par_kernel_func = betweenness_synch_distance,
      par_gather_func = betweenness_gather_distance,
      par_init_func = None\<rparr>"

definition config_backward ::
  "('w::len) word totem_consts \<Rightarrow> nat \<Rightarrow> 'w word engine_config_t" where
  "config_backward K k =
     \<lparr>par_kernel_func = betweenness_backward K k,
      par_gather_func = betweenness_gather_backward,
      par_init_func = Some betweenness_init_backward\<rparr>"

section \<open>Aggregation and the entry point\<close>

definition aggr_body ::
  "('c, 'z) totem_consts_scheme \<Rightarrow> engine_t \<Rightarrow> betweenness_global_state_t \<Rightarrow>
   'c partition_t \<Rightarrow> (nat \<Rightarrow> score_t) \<Rightarrow> nat \<Rightarrow> (nat \<Rightarrow> score_t) \<Rightarrow> (nat \<Rightarrow> score_t)" where
  "aggr_body K eng bc_g par betweenness_values v score =
     (if epsilon bc_g = CENTRALITY_EXACT K
      then score(map_p par v := betweenness_values v)
      else score(map_p par v := betweenness_values v *
                  (real (engine_vertex_count eng) / real_of_int (num_samples bc_g))))"

definition betweenness_aggr ::
  "('c, 'z) totem_consts_scheme \<Rightarrow> engine_t \<Rightarrow> betweenness_global_state_t \<Rightarrow>
   'c partition_t \<Rightarrow> abort + betweenness_global_state_t" where
  "betweenness_aggr K eng bc_g par =
     (if vertex_count (subgraph par) = 0 then Inr bc_g
      else
        let state = algo_state par;
            r = (if processor par = PROCESSOR_CPU then Inr (bc_g, betweenness state)
                 else if processor par = PROCESSOR_GPU
                 then (case betweenness_score_h bc_g of
                         None \<Rightarrow> Inl ASSERTION_FAILED
                       | Some h \<Rightarrow>
                           let h1 = memcpy_n h (betweenness state) (vertex_count (subgraph par))
                           in Inr (bc_g\<lparr>betweenness_score_h := Some h1\<rparr>, h1))
                 else Inl ASSERTION_FAILED)
        in case r of
             Inl e \<Rightarrow> Inl e
           | Inr gv \<Rightarrow>
               (case betweenness_score (fst gv) of
                  None \<Rightarrow> Inl ASSERTION_FAILED
                | Some score \<Rightarrow>
                    Inr ((fst gv)\<lparr>betweenness_score :=
                           Some (fold (aggr_body K eng (fst gv) par (snd gv))
                                   [0..<vertex_count (subgraph par)] score)\<rparr>)))"

text \<open>
  Modelled from the spec: \<^verbatim>\<open>betweenness_check_special_cases\<close> is defined in a file
  that is not among the sources. "Trivial inputs (zero or one vertex)" and "special
  cases (empty graph, single vertex, edgeless graph) short-circuit to zeros", with
  \<open>SUCCESS\<close>: the function reports that the computation is finished and fills the
  \<open>vertex_count\<close> entries of the output with zeros.
\<close>

definition betweenness_check_special_cases ::
  "graph_t \<Rightarrow> (nat \<Rightarrow> score_t) \<Rightarrow> error_t \<times> bool \<times> (nat \<Rightarrow> score_t)" where
  "betweenness_check_special_cases graph out =
     (if vertex_count graph \<le> 1 \<or> edge_count graph = 0
      then (SUCCESS, True, totem_memset out 0 0 (vertex_count graph))
      else (SUCCESS, False, out))"

text \<open>
  \<^verbatim>\<open>betweenness_hybrid\<close>: the check of the special cases, and, when the check has not
  finished the computation, the rounds for the sources. The rounds are driven by the
  engine; they are the parameter \<open>rounds\<close>, which gets the accuracy and the output
  array and returns the status and the output array.
\<close>

definition betweenness_hybrid ::
  "(real \<Rightarrow> (nat \<Rightarrow> score_t) \<Rightarrow> error_t \<times> (nat \<Rightarrow> score_t)) \<Rightarrow> graph_t \<Rightarrow> real \<Rightarrow>
   (nat \<Rightarrow> score_t) \<Rightarrow> error_t \<times> (nat \<Rightarrow> score_t)" where
  "betweenness_hybrid rounds engine_graph eps out_scores =
     (let chk = betweenness_check_special_cases engine_graph out_scores
      in if fst (snd chk) then (fst chk, snd (snd chk))
         else rounds eps (snd (snd chk)))"

section \<open>A graph on two partitions\<close>

text \<open>
  The diamond \<open>s - a\<close>, \<open>s - b\<close>, \<open>a - c\<close>, \<open>b - c\<close>: partition 0 holds \<open>s\<close> and \<open>a\<close>
  (local identifiers 0 and 1), partition 1 holds \<open>b\<close> and \<open>c\<close>. An encoded identifier
  is \<open>16 * pid + vid\<close>; a remote neighbour is named by its slot in the outbox. Costs are
  16 bits wide and \<open>INF_COST\<close> is the largest of them.
\<close>

definition ex_K :: "16 word totem_consts" where
  "ex_K = \<lparr>INF_COST = - 1, VERTEX_BITS = 4, CENTRALITY_EXACT = 0\<rparr>"

definition ex_eng :: "nat \<Rightarrow> engine_t" where
  "ex_eng s = \<lparr>partition_count = 2, superstep = s, engine_vertex_count = 4, finished = True\<rparr>"

definition ex_graph0 :: graph_t where
  "ex_graph0 = \<lparr>vertex_count = 2, edge_count = 4,
      vertices = (\<lambda>i. [0, 2, 4] ! i), edges = (\<lambda>i. [1, 16, 0, 17] ! i)\<rparr>"

definition ex_graph1 :: graph_t where
  "ex_graph1 = \<lparr>vertex_count = 2, edge_count = 4,
      vertices = (\<lambda>i. [0, 2, 4] ! i), edges = (\<lambda>i. [0, 17, 1, 16] ! i)\<rparr>"

definition ex_box ::
  "(nat \<Rightarrow> u32) \<Rightarrow> (nat \<Rightarrow> score_t) \<Rightarrow> (nat \<Rightarrow> 16 word) \<Rightarrow> 16 word grooves_box_table_t" where
  "ex_box pv sv cv = \<lparr>count = 2, rmt_nbrs = (\<lambda>i. i), push_values = pv,
      pull_values = sv, pull_values_cost = cv\<rparr>"

definition ex_state ::
  "nat \<Rightarrow> (nat \<Rightarrow> nat \<Rightarrow> 16 word) \<Rightarrow> (nat \<Rightarrow> nat \<Rightarrow> u32) \<Rightarrow> (nat \<Rightarrow> score_t) \<Rightarrow>
   16 word \<Rightarrow> 16 word betweenness_state_t" where
  "ex_state pid d n dl l =
     \<lparr>distance = d, numSPs = n,
      numSPs_f = (\<lambda>q. if q = pid then NUMSPS q else OUTBOX_PUSH q),
      delta = (\<lambda>q. if q = pid then DELTA_LOCAL else OUTBOX_PULL q),
      delta_local = dl, done_flag = True, level = l, betweenness = (\<lambda>v. 0),
      frontier_list = (\<lambda>i. 0), frontier_count = 0\<rparr>"

definition ex_par ::
  "nat \<Rightarrow> graph_t \<Rightarrow> processor_type \<Rightarrow> 16 word grooves_box_table_t \<Rightarrow>
   16 word grooves_box_table_t \<Rightarrow> 16 word betweenness_state_t \<Rightarrow> 16 word partition_t" where
  "ex_par pid g proc ob ib st =
     \<lparr>id_p = pid, subgraph = g, processor = proc, outbox = (\<lambda>q. ob), inbox = (\<lambda>q. ib),
      map_p = (\<lambda>v. 2 * pid + v), algo_state = st\<rparr>"

definition ex_bc_g :: betweenness_global_state_t where
  "ex_bc_g = \<lparr>betweenness_score = Some (\<lambda>v. 0), betweenness_score_h = Some (\<lambda>v. 0),
      src = 0, epsilon = 0, num_samples = 0\<rparr>"

text \<open>Partition 0 before the forward initialisation, with leftovers in every array.\<close>

definition ex_init_par :: "16 word partition_t" where
  "ex_init_par = ex_par 0 ex_graph0 PROCESSOR_CPU
      (ex_box (\<lambda>i. 7) (\<lambda>i. 0) (\<lambda>i. 0)) (ex_box (\<lambda>i. 0) (\<lambda>i. 0) (\<lambda>i. 0))
      (ex_state 0 (\<lambda>q i. 5) (\<lambda>q i. 9) (\<lambda>v. 0) 3)"

text \<open>
  Partition 1 at the scatter of the first forward superstep: partition 0 has pushed one
  path to \<open>b\<close> and nothing to \<open>c\<close>.
\<close>

definition ex_scatter_par :: "16 word partition_t" where
  "ex_scatter_par = ex_par 1 ex_graph1 PROCESSOR_GPU
      (ex_box (\<lambda>i. 0) (\<lambda>i. 0) (\<lambda>i. 0))
      (ex_box (\<lambda>i. if i = 0 then 1 else 0) (\<lambda>i. 0) (\<lambda>i. 0))
      (ex_state 1 (\<lambda>q i. - 1) (\<lambda>q i. 0) (\<lambda>v. 0) 1)"

text \<open>
  Partition 0 at the first forward superstep, source \<open>s\<close>: \<open>s\<close> is at level 0 with one
  path, its neighbours \<open>a\<close> (local) and \<open>b\<close> (slot 0 of the outbox) are unreached.
\<close>

definition ex_forward_par :: "16 word partition_t" where
  "ex_forward_par = ex_par 0 ex_graph0 PROCESSOR_CPU
      (ex_box (\<lambda>i. 0) (\<lambda>i. 0) (\<lambda>i. 0)) (ex_box (\<lambda>i. 0) (\<lambda>i. 0) (\<lambda>i. 0))
      (ex_state 0 (\<lambda>q i. if q = 0 \<and> i = 0 then 0 else - 1)
                  (\<lambda>q i. if q = 0 \<and> i = 0 then 1 else 0) (\<lambda>v. 0) 0)"

text \<open>
  Partition 1 at the aggregation, on a GPU and in approximate mode with two samples:
  the scores of \<open>b\<close> and \<open>c\<close> are 3 and 1/2.
\<close>

definition ex_aggr_par :: "16 word partition_t" where
  "ex_aggr_par = ex_par 1 ex_graph1 PROCESSOR_GPU
      (ex_box (\<lambda>i. 0) (\<lambda>i. 0) (\<lambda>i. 0)) (ex_box (\<lambda>i. 0) (\<lambda>i. 0) (\<lambda>i. 0))
      ((ex_state 1 (\<lambda>q i. 0) (\<lambda>q i. 0) (\<lambda>v. 0) 0)
         \<lparr>betweenness := (\<lambda>v. if v = 0 then 3 else 1 / 2)\<rparr>)"

definition ex_aggr_g :: betweenness_global_state_t where
  "ex_aggr_g = \<lparr>betweenness_score = Some (\<lambda>v. 7), betweenness_score_h = Some (\<lambda>v. 0),
      src = 0, epsilon = 1 / 10, num_samples = 2\<rparr>"

text \<open>A graph with a single vertex and a loop on it.\<close>

definition ex_single :: graph_t where
  "ex_single = \<lparr>vertex_count = 1, edge_count = 1,
      vertices = (\<lambda>i. [0, 1] ! i), edges = (\<lambda>i. 0)\<rparr>"

text \<open>
  Partition 1 at the second forward superstep: \<open>b\<close> is at level 1 with one path, \<open>c\<close> and
  the mirrors of \<open>s\<close> and \<open>a\<close> are unreached.
\<close>

definition ex_forward_par1 :: "16 word partition_t" where
  "ex_forward_par1 = ex_par 1 ex_graph1 PROCESSOR_CPU
      (ex_box (\<lambda>i. 0) (\<lambda>i. 0) (\<lambda>i. 0)) (ex_box (\<lambda>i. 0) (\<lambda>i. 0) (\<lambda>i. 0))
      (ex_state 1 (\<lambda>q i. if q = 1 \<and> i = 0 then 1 else - 1)
                  (\<lambda>q i. if q = 1 \<and> i = 0 then 1 else 0) (\<lambda>v. 0) 1)"

text \<open>
  The same partition after its forward kernel, when the distance round has delivered
  the distances of \<open>s\<close> and \<open>a\<close>, 0 and 1, that partition 0 gathered.
\<close>

definition ex_sync_par :: "16 word partition_t" where
  "ex_sync_par =
     (let par = projr (betweenness_forward ex_K 5 (ex_eng 2) ex_forward_par1)
      in par\<lparr>outbox := (\<lambda>q. (outbox par q)
                 \<lparr>pull_values_cost := (\<lambda>i. if i = 0 then 0 else 1)\<rparr>)\<rparr>)"

text \<open>
  Partition 0 at the first forward superstep again, now on a GPU and with a leftover 7
  in every slot of its push buffers.
\<close>

definition ex_forward_gpu_par :: "16 word partition_t" where
  "ex_forward_gpu_par = ex_par 0 ex_graph0 PROCESSOR_GPU
      (ex_box (\<lambda>i. 7) (\<lambda>i. 0) (\<lambda>i. 0)) (ex_box (\<lambda>i. 0) (\<lambda>i. 0) (\<lambda>i. 0))
      (ex_state 0 (\<lambda>q i. if q = 0 \<and> i = 0 then 0 else - 1)
                  (\<lambda>q i. if q = 0 \<and> i = 0 then 1 else 0) (\<lambda>v. 0) 0)"

text \<open>
  Partition 0 at the second forward superstep: \<open>s\<close> and \<open>a\<close> are at levels 0 and 1, the
  mirror of \<open>b\<close> is at level 1 and the mirror of \<open>c\<close> is unreached. The frontier is \<open>a\<close>,
  whose neighbours are \<open>s\<close> and \<open>c\<close>. Partition 1 has pushed one path to \<open>s\<close> (slot 0 of
  the inbox), and the distance round has delivered 1 and 2 for \<open>b\<close> and \<open>c\<close>.
\<close>

definition ex_second_par :: "processor_type \<Rightarrow> 16 word partition_t" where
  "ex_second_par proc = ex_par 0 ex_graph0 proc
      (ex_box (\<lambda>i. 0) (\<lambda>i. 0) (\<lambda>i. if i = 0 then 1 else 2))
      (ex_box (\<lambda>i. if i = 0 then 1 else 0) (\<lambda>i. 0) (\<lambda>i. 0))
      (ex_state 0 (\<lambda>q i. if q = 0 then (if i = 0 then 0 else 1) else (if i = 0 then 1 else - 1))
                  (\<lambda>q i. if q = 0 then 1 else 0) (\<lambda>v. 0) 1)"


section \<open>Proofs\<close>

subsection \<open>Equality of records, field by field\<close>

lemma par_eqI:
  fixes a b :: "'c partition_t"
  assumes "id_p a = id_p b" "subgraph a = subgraph b" "processor a = processor b"
    "outbox a = outbox b" "inbox a = inbox b" "map_p a = map_p b" "algo_state a = algo_state b"
  shows "a = b"
  using assms by (cases a, cases b) simp

lemma state_eqI:
  fixes a b :: "'c betweenness_state_t"
  assumes "distance a = distance b" "numSPs a = numSPs b" "numSPs_f a = numSPs_f b"
    "delta a = delta b" "delta_local a = delta_local b" "done_flag a = done_flag b"
    "level a = level b" "betweenness a = betweenness b" "frontier_list a = frontier_list b"
    "frontier_count a = frontier_count b"
  shows "a = b"
  using assms by (cases a, cases b) simp

lemma box_eqI:
  fixes a b :: "'c grooves_box_table_t"
  assumes "count a = count b" "rmt_nbrs a = rmt_nbrs b" "push_values a = push_values b"
    "pull_values a = pull_values b" "pull_values_cost a = pull_values_cost b"
  shows "a = b"
  using assms by (cases a, cases b) simp


subsection \<open>The example graph\<close>

lemma ex_graph0_edges:
  "\<forall>v e. v < vertex_count ex_graph0 \<longrightarrow> vertices ex_graph0 v \<le> e \<longrightarrow>
      e < vertices ex_graph0 (v + 1) \<longrightarrow>
      GET_PARTITION_ID ex_K (edges ex_graph0 e) < partition_count (ex_eng s)"
proof (intro allI impI)
  fix v e
  assume "v < vertex_count ex_graph0" and "e < vertices ex_graph0 (v + 1)"
  then have "v = 0 \<or> v = 1" and "e < [0, 2, 4] ! (v + 1)"
    by (auto simp: ex_graph0_def)
  then have "e < 4" by auto
  then have "e = 0 \<or> e = 1 \<or> e = 2 \<or> e = 3" by arith
  then show "GET_PARTITION_ID ex_K (edges ex_graph0 e) < partition_count (ex_eng s)"
    by (auto simp: GET_PARTITION_ID_def ex_K_def ex_graph0_def ex_eng_def)
qed

lemma ex_graph0_ascending:
  "\<forall>v. v < vertex_count ex_graph0 \<longrightarrow> vertices ex_graph0 v \<le> vertices ex_graph0 (v + 1)"
proof (intro allI impI)
  fix v
  assume "v < vertex_count ex_graph0"
  then have "v = 0 \<or> v = 1" by (auto simp: ex_graph0_def)
  then show "vertices ex_graph0 v \<le> vertices ex_graph0 (v + 1)"
    by (auto simp: ex_graph0_def)
qed






subsection \<open>Forward initialisation\<close>

lemma init_forward_arrays_fold_distance:
  "distance (fold (init_forward_arrays K par) [0..<n] st) q i =
     (if q < n \<and> i < (if q \<noteq> id_p par then count (outbox par q) else vertex_count (subgraph par))
      then INF_COST K else distance st q i)"
  by (induction n) (auto simp: init_forward_arrays_def Let_def totem_memset_def)

lemma init_forward_arrays_fold_numSPs:
  "numSPs (fold (init_forward_arrays K par) [0..<n] st) q i =
     (if q < n \<and> i < (if q \<noteq> id_p par then count (outbox par q) else vertex_count (subgraph par))
      then 0 else numSPs st q i)"
  by (induction n) (auto simp: init_forward_arrays_def Let_def totem_memset_def)

text \<open>
  C4. After \<^verbatim>\<open>betweenness_init_forward\<close> on a partition with vertices (whose identifier
  is below the partition count): within the extent of every distance and numSPs array,
  local or mirror, the entry is \<open>INF_COST\<close> and \<open>0\<close>, except the entry of the source in
  the source's own partition, which is \<open>0\<close> and \<open>1\<close>; every slot of the push buffer of
  every outbox is \<open>0\<close>; the level is \<open>0\<close>.
\<close>

theorem betweenness_init_forward_seeds:
  fixes K :: "('w::len) word totem_consts" and par :: "'w word partition_t"
    and eng :: engine_t and bc_g :: betweenness_global_state_t
  assumes "vertex_count (subgraph par) \<noteq> 0"
    and "id_p par < partition_count eng"
  defines "par' \<equiv> betweenness_init_forward K eng bc_g par"
  defines "is_src \<equiv> \<lambda>q i. q = id_p par \<and> GET_PARTITION_ID K (src bc_g) = id_p par \<and>
                           i = GET_VERTEX_ID K (src bc_g)"
  defines "extent \<equiv> \<lambda>q. if q = id_p par then vertex_count (subgraph par)
                          else count (outbox par q)"
  shows "(\<forall>q < partition_count eng. \<forall>i < extent q.
            distance (algo_state par') q i = (if is_src q i then 0 else INF_COST K) \<and>
            numSPs (algo_state par') q i = (if is_src q i then 1 else 0))
       \<and> (\<forall>q < partition_count eng. q \<noteq> id_p par \<longrightarrow>
            (\<forall>i < count (outbox par' q). push_values (outbox par' q) i = 0))
       \<and> level (algo_state par') = 0"
  using assms(1,2) unfolding par'_def is_src_def extent_def
  by (auto simp: betweenness_init_forward_def Let_def engine_set_outbox_def totem_memset_def
       init_forward_arrays_fold_distance init_forward_arrays_fold_numSPs)

theorem betweenness_init_forward_seeds_witness:
  "vertex_count (subgraph ex_init_par) \<noteq> 0 \<and> id_p ex_init_par < partition_count (ex_eng 3) \<and>
   (let par' = betweenness_init_forward ex_K (ex_eng 3) ex_bc_g ex_init_par
    in distance (algo_state par') 0 0 = 0 \<and> distance (algo_state par') 0 1 = - 1 \<and>
       distance (algo_state par') 1 0 = - 1 \<and> distance (algo_state par') 1 1 = - 1 \<and>
       numSPs (algo_state par') 0 0 = 1 \<and> numSPs (algo_state par') 0 1 = 0 \<and>
       numSPs (algo_state par') 1 0 = 0 \<and> numSPs (algo_state par') 1 1 = 0 \<and>
       push_values (outbox par' 1) 0 = 0 \<and> push_values (outbox par' 1) 1 = 0 \<and>
       level (algo_state par') = 0)"
proof -
  have a: "vertex_count (subgraph ex_init_par) \<noteq> 0"
    by (simp add: ex_init_par_def ex_par_def ex_graph0_def)
  have b: "id_p ex_init_par < partition_count (ex_eng 3)"
    by (simp add: ex_init_par_def ex_par_def ex_eng_def)
  have c: "GET_PARTITION_ID ex_K (src ex_bc_g) = 0" "GET_VERTEX_ID ex_K (src ex_bc_g) = 0"
    by (simp_all add: GET_PARTITION_ID_def GET_VERTEX_ID_def ex_K_def ex_bc_g_def)
  have d: "id_p ex_init_par = 0" "partition_count (ex_eng 3) = 2"
    "vertex_count (subgraph ex_init_par) = 2" "count (outbox ex_init_par 1) = 2"
    "INF_COST ex_K = - 1"
    by (simp_all add: ex_init_par_def ex_par_def ex_eng_def ex_graph0_def ex_box_def ex_K_def)
  have e: "count (outbox (betweenness_init_forward ex_K (ex_eng 3) ex_bc_g ex_init_par) 1) = 2"
    by (simp add: betweenness_init_forward_def engine_set_outbox_def Let_def
        ex_init_par_def ex_par_def ex_eng_def ex_graph0_def ex_box_def)
  note t = betweenness_init_forward_seeds [OF a b, of ex_K ex_bc_g]
  note t1 = t [THEN conjunct1, rule_format]
  note t2 = t [THEN conjunct2, THEN conjunct1, rule_format]
  note t3 = t [THEN conjunct2, THEN conjunct2]
  show ?thesis
    using a b t1 [of 0 0] t1 [of 0 1] t1 [of 1 0] t1 [of 1 1] t2 [of 1 0] t2 [of 1 1] t3
    by (simp add: Let_def c d e del: One_nat_def)
qed
subsection \<open>Forward scatter\<close>

lemma inbox_pushed_Suc: "inbox_pushed inb (Suc n) v = inbox_pushed inb n v + (if rmt_nbrs inb n = v then push_values inb n else 0)"
  by (simp add: inbox_pushed_def)

lemma inbox_reaches_Suc: "inbox_reaches inb (Suc n) v = (inbox_reaches inb n v \<or> (push_values inb n \<noteq> 0 \<and> rmt_nbrs inb n = v))"
  by (auto simp: inbox_reaches_def less_Suc_eq)

lemma not_inbox_reaches_pushed: "\<not> inbox_reaches inb n v \<Longrightarrow> inbox_pushed inb n v = 0"
  by (induction n) (auto simp: inbox_reaches_Suc inbox_pushed_Suc, simp_all add: inbox_pushed_def)

lemma scatter_pushed_Suc: "scatter_pushed par (Suc n) v = scatter_pushed par n v +
   (if n = id_p par then 0 else inbox_pushed (inbox par n) (count (inbox par n)) v)"
  by (simp add: scatter_pushed_def)

lemma scatter_reaches_Suc: "scatter_reaches par (Suc n) v = (scatter_reaches par n v \<or>
   (n \<noteq> id_p par \<and> inbox_reaches (inbox par n) (count (inbox par n)) v))"
  by (auto simp: scatter_reaches_def less_Suc_eq)

lemma not_scatter_reaches_pushed: "\<not> scatter_reaches par n v \<Longrightarrow> scatter_pushed par n v = 0"
  by (induction n) (auto simp: scatter_reaches_Suc scatter_pushed_Suc not_inbox_reaches_pushed, simp_all add: scatter_pushed_def)

lemma scatter_kernel_fold:
  fixes K :: "('w::len) word totem_consts"
  assumes "n \<le> count inb"
  shows "fold (betweenness_scatter_kernel K inb lvl) [0..<n] (d, a) =
     ((\<lambda>v. if d v = INF_COST K \<and> inbox_reaches inb n v then lvl else d v),
      (\<lambda>v. a v + (if (if d v = INF_COST K \<and> inbox_reaches inb n v then lvl else d v) = lvl
                   then inbox_pushed inb n v else 0)))"
  using assms
proof (induction n)
  case 0
  then show ?case by (auto simp: inbox_reaches_def inbox_pushed_def)
next
  case (Suc n)
  then show ?case
    apply (simp add: betweenness_scatter_kernel_def Let_def)
    apply (intro conjI impI ext)
    apply (auto simp: inbox_reaches_Suc inbox_pushed_Suc not_inbox_reaches_pushed)
    done
qed

lemma state_upd_cong:
  "d = d' \<Longrightarrow> a = a' \<Longrightarrow>
   (st::'c betweenness_state_t)\<lparr>distance := d, numSPs := a\<rparr> = st\<lparr>distance := d', numSPs := a'\<rparr>"
  by simp

lemma state_upd_triv:
  "d = distance st \<Longrightarrow> a = numSPs st \<Longrightarrow>
   (st::'c betweenness_state_t) = st\<lparr>distance := d, numSPs := a\<rparr>"
  by simp

lemma scatter_cpu_fold:
  fixes K :: "('w::len) word totem_consts"
  assumes "n \<le> count inb"
  shows "fold (scatter_cpu_body K pid inb) [0..<n] state =
     state\<lparr>distance := (distance state)(pid := fst (fold (betweenness_scatter_kernel K inb (level state)) [0..<n]
                  (distance state pid, numSPs state pid))),
               numSPs := (numSPs state)(pid := snd (fold (betweenness_scatter_kernel K inb (level state)) [0..<n]
                  (distance state pid, numSPs state pid)))\<rparr>"
  using assms
proof (induction n)
  case 0
  show ?case by simp
next
  case (Suc n)
  define mem where "mem = fold (betweenness_scatter_kernel K inb (level state)) [0..<n]
                  (distance state pid, numSPs state pid)"
  from Suc.prems have le: "n \<le> count inb" by simp
  have step: "fold (scatter_cpu_body K pid inb) [0..<Suc n] state =
     scatter_cpu_body K pid inb n (state\<lparr>distance := (distance state)(pid := fst mem),
               numSPs := (numSPs state)(pid := snd mem)\<rparr>)"
  proof -
    have "fold (scatter_cpu_body K pid inb) [0..<Suc n] state =
       scatter_cpu_body K pid inb n (fold (scatter_cpu_body K pid inb) [0..<n] state)"
      by simp
    then show ?thesis by (simp only: Suc.IH[OF le] mem_def)
  qed
  have k: "fold (betweenness_scatter_kernel K inb (level state)) [0..<Suc n]
                  (distance state pid, numSPs state pid) = betweenness_scatter_kernel K inb (level state) n mem"
    by (simp add: mem_def)
  from Suc.prems have n: "\<not> count inb \<le> n" by simp
  show ?case unfolding step k
    by (cases "push_values inb n = 0"; cases "fst mem (rmt_nbrs inb n) = INF_COST K";
        cases "fst mem (rmt_nbrs inb n) = level state"; cases "level state = INF_COST K")
       (auto simp add: scatter_cpu_body_def betweenness_scatter_kernel_def Let_def n fun_eq_iff
          intro!: state_upd_cong)
qed

lemma scatter_cpu_gpu:
  "betweenness_scatter_cpu K (id_p par) inb state = betweenness_scatter_gpu K par inb state"
  by (simp add: betweenness_scatter_cpu_def betweenness_scatter_gpu_def scatter_cpu_fold Let_def)

lemma scatter_gpu_result:
  fixes K :: "('w::len) word totem_consts"
  shows "betweenness_scatter_gpu K par inb state =
    scatter_result K (id_p par) (inbox_reaches inb (count inb)) (inbox_pushed inb (count inb)) state"
  by (simp add: betweenness_scatter_gpu_def scatter_kernel_fold Let_def scatter_result_def)

lemma scatter_result_compose:
  assumes "\<And>v. \<not> r1 v \<Longrightarrow> p1 v = 0"
  shows "scatter_result K pid r2 p2 (scatter_result K pid r1 p1 state) =
    scatter_result K pid (\<lambda>v. r1 v \<or> r2 v) (\<lambda>v. p1 v + p2 v) state"
  unfolding scatter_result_def
  apply simp
  apply (rule state_upd_cong)
   apply (rule arg_cong[where f="fun_upd _ _"])
   apply (rule ext)
   apply (auto)[1]
  apply (rule arg_cong[where f="fun_upd _ _"])
  apply (rule ext)
  using assms apply auto
  done

lemma scatter_result_none:
  "scatter_result K pid (\<lambda>v. False) (\<lambda>v. 0) state = state"
  unfolding scatter_result_def by simp

lemma scatter_forward_fold:
  fixes K :: "('w::len) word totem_consts"
  assumes "processor par = PROCESSOR_CPU \<or> processor par = PROCESSOR_GPU"
  shows "fold (scatter_forward_body K par) [0..<n] (Inr state) =
    Inr (scatter_result K (id_p par) (scatter_reaches par n) (scatter_pushed par n) state)"
proof (induction n)
  case 0
  have "scatter_reaches par 0 = (\<lambda>v. False)" "scatter_pushed par 0 = (\<lambda>v. 0)"
    by (auto simp: scatter_reaches_def scatter_pushed_def)
  then show ?case by (simp add: scatter_result_none)
next
  case (Suc n)
  have e: "inbox_reaches (inbox par n) 0 = (\<lambda>v. False)"
       "inbox_pushed (inbox par n) 0 = (\<lambda>v. 0)"
    by (auto simp: inbox_reaches_def inbox_pushed_def)
  have step: "fold (scatter_forward_body K par) [0..<Suc n] (Inr state) =
     scatter_forward_body K par n (Inr (scatter_result K (id_p par) (scatter_reaches par n) (scatter_pushed par n) state))"
    by (simp add: Suc)
  have r: "scatter_reaches par (Suc n) = (\<lambda>v. scatter_reaches par n v \<or>
      (n \<noteq> id_p par \<and> inbox_reaches (inbox par n) (count (inbox par n)) v))"
    by (auto simp: scatter_reaches_Suc)
  have p: "scatter_pushed par (Suc n) = (\<lambda>v. scatter_pushed par n v +
     (if n = id_p par then 0 else inbox_pushed (inbox par n) (count (inbox par n)) v))"
    by (auto simp: scatter_pushed_Suc)
  show ?case unfolding step r p using assms
    by (auto simp: scatter_forward_body_def scatter_cpu_gpu scatter_gpu_result
        scatter_result_compose not_scatter_reaches_pushed e)
qed

lemma scatter_forward_hook:
  fixes K :: "('w::len) word totem_consts"
  assumes "vertex_count (subgraph par) \<noteq> 0"
    and "processor par = PROCESSOR_CPU \<or> processor par = PROCESSOR_GPU"
  shows "betweenness_scatter_forward K eng par =
    Inr (par\<lparr>algo_state := scatter_result K (id_p par)
           (scatter_reaches par (partition_count eng))
           (scatter_pushed par (partition_count eng)) (algo_state par)\<rparr>)"
  using assms by (simp add: betweenness_scatter_forward_def scatter_forward_fold)

text \<open>
  C3. The forward scatter hook of a partition with vertices, on a CPU or a GPU: a local
  vertex whose distance was \<open>INF_COST\<close> and that is the target \<open>rmt_nbrs[i]\<close> of an inbox
  slot with a non-zero push value gets the current level as its distance, and no other
  distance changes; a vertex whose distance then equals the current level has the push
  values of all the slots that target it added to its numSPs, and no other numSPs entry
  changes (a slot whose push value is zero reaches no vertex and adds nothing); nothing
  else in the partition changes.
\<close>

theorem betweenness_scatter_forward_effect:
  fixes K :: "('w::len) word totem_consts"
  assumes "vertex_count (subgraph par) \<noteq> 0"
    and "processor par = PROCESSOR_CPU \<or> processor par = PROCESSOR_GPU"
  shows "case betweenness_scatter_forward K eng par of
           Inl e \<Rightarrow> False
         | Inr par' \<Rightarrow>
            (\<forall>v. distance (algo_state par') (id_p par) v =
                 (if distance (algo_state par) (id_p par) v = INF_COST K \<and>
                     scatter_reaches par (partition_count eng) v
                  then level (algo_state par)
                  else distance (algo_state par) (id_p par) v)) \<and>
            (\<forall>v. numSPs (algo_state par') (id_p par) v =
                 numSPs (algo_state par) (id_p par) v +
                 (if distance (algo_state par') (id_p par) v = level (algo_state par)
                  then scatter_pushed par (partition_count eng) v else 0)) \<and>
            par' = par\<lparr>algo_state := (algo_state par)
                     \<lparr>distance := (distance (algo_state par))
                         (id_p par := distance (algo_state par') (id_p par)),
                      numSPs := (numSPs (algo_state par))
                         (id_p par := numSPs (algo_state par') (id_p par))\<rparr>\<rparr>"
  unfolding scatter_forward_hook[OF assms]
  by (simp add: scatter_result_def)

theorem betweenness_scatter_forward_effect_witness:
  "vertex_count (subgraph ex_scatter_par) \<noteq> 0 \<and>
   (processor ex_scatter_par = PROCESSOR_CPU \<or> processor ex_scatter_par = PROCESSOR_GPU) \<and>
   (case betweenness_scatter_forward ex_K (ex_eng 3) ex_scatter_par of
      Inl e \<Rightarrow> False
    | Inr par' \<Rightarrow>
        distance (algo_state par') 1 0 = 1 \<and> numSPs (algo_state par') 1 0 = 1 \<and>
        distance (algo_state par') 1 1 = - 1 \<and> numSPs (algo_state par') 1 1 = 0)"
proof -
  have a: "vertex_count (subgraph ex_scatter_par) \<noteq> 0"
    by (simp add: ex_scatter_par_def ex_par_def ex_graph1_def)
  have b: "processor ex_scatter_par = PROCESSOR_CPU \<or> processor ex_scatter_par = PROCESSOR_GPU"
    by (simp add: ex_scatter_par_def ex_par_def)
  have two: "[0..<2] = [0, 1]"
    by (simp add: upt_rec)
  have r: "scatter_reaches ex_scatter_par 2 0" "\<not> scatter_reaches ex_scatter_par 2 1"
    "scatter_pushed ex_scatter_par 2 0 = 1" "scatter_pushed ex_scatter_par 2 1 = 0"
    by (simp_all add: scatter_reaches_def scatter_pushed_def inbox_reaches_def inbox_pushed_def
        ex_scatter_par_def ex_par_def ex_box_def two)
  have d: "id_p ex_scatter_par = 1" "partition_count (ex_eng 3) = 2"
    "distance (algo_state ex_scatter_par) 1 = (\<lambda>v. - 1)"
    "numSPs (algo_state ex_scatter_par) 1 = (\<lambda>v. 0)"
    "level (algo_state ex_scatter_par) = 1" "INF_COST ex_K = - 1"
    by (simp_all add: ex_scatter_par_def ex_par_def ex_eng_def ex_state_def ex_K_def)
  note t = betweenness_scatter_forward_effect [OF a b, of ex_K "ex_eng 3"]
  show ?thesis using a b t
    by (auto split: sum.splits simp: d r simp del: One_nat_def)
qed

subsection \<open>The strided loop of a virtual warp\<close>

text \<open>The indices that the thread at offset \<open>i\<close> visits.\<close>

lemma strided_insert:
  assumes "i < n" and "0 < (W::nat)"
  shows "{i + m * W |m. i + m * W < n} = insert i {(i + W) + m * W |m. (i + W) + m * W < n}"
proof (intro set_eqI iffI)
  fix j
  assume "j \<in> {i + m * W |m. i + m * W < n}"
  then obtain m where j: "j = i + m * W" "i + m * W < n" by auto
  show "j \<in> insert i {(i + W) + m * W |m. (i + W) + m * W < n}"
  proof (cases m)
    case 0
    with j show ?thesis by simp
  next
    case (Suc m')
    with j have "j = (i + W) + m' * W" "(i + W) + m' * W < n" by simp_all
    then show ?thesis by blast
  qed
next
  fix j
  assume "j \<in> insert i {(i + W) + m * W |m. (i + W) + m * W < n}"
  then consider "j = i" | m where "j = (i + W) + m * W" "(i + W) + m * W < n" by auto
  then show "j \<in> {i + m * W |m. i + m * W < n}"
  proof cases
    case 1
    with assms(1) have "j = i + 0 * W" "i + 0 * W < n" by simp_all
    then show ?thesis by blast
  next
    case 2
    then have "j = i + Suc m * W" "i + Suc m * W < n" by simp_all
    then show ?thesis by blast
  qed
qed

lemma strided_finite: "finite {i + m * W |m. i + m * W < (n::nat)}"
  by (rule finite_subset [of _ "{..<n}"]) auto

lemma strided_mod:
  assumes "lane < (W::nat)"
  shows "{lane + m * W |m. lane + m * W < n} = {j \<in> {..<n}. j mod W = lane}"
proof (intro set_eqI iffI)
  fix j
  assume "j \<in> {lane + m * W |m. lane + m * W < n}"
  then obtain m where "j = lane + m * W" "lane + m * W < n" by auto
  moreover have "(lane + m * W) mod W = lane mod W" by (rule mod_mult_self1)
  ultimately show "j \<in> {j \<in> {..<n}. j mod W = lane}" using assms by simp
next
  fix j
  assume "j \<in> {j \<in> {..<n}. j mod W = lane}"
  then have "j < n" "j mod W = lane" by simp_all
  then have e: "j = lane + (j div W) * W" by (metis add.commute div_mult_mod_eq)
  with \<open>j < n\<close> have "lane + (j div W) * W < n" by simp
  with e show "j \<in> {lane + m * W |m. lane + m * W < n}" by blast
qed

lemma strided_lanes_sum:
  fixes g :: "nat \<Rightarrow> 'a::comm_monoid_add"
  assumes "0 < (W::nat)"
  shows "(\<Sum>lane<W. sum g {lane + m * W |m. lane + m * W < n}) = sum g {..<n}"
proof -
  have "(\<Sum>lane<W. sum g {lane + m * W |m. lane + m * W < n}) =
        (\<Sum>lane\<in>{..<W}. sum g {j \<in> {..<n}. j mod W = lane})"
    by (rule sum.cong) (simp_all add: strided_mod)
  also have "\<dots> = sum g {..<n}"
    by (rule sum.group) (use assms in auto)
  finally show ?thesis .
qed

subsection \<open>Forward kernel\<close>

lemma forward_reached_Nil [simp]: "forward_reached K g [] q i = False"
  by (simp add: forward_reached_def)
lemma forward_pushed_Nil [simp]: "forward_pushed K g [] q i = 0"
  by (simp add: forward_pushed_def)
lemma forward_found_Nil [simp]: "forward_found K par [] = False"
  by (simp add: forward_found_def)

lemma forward_reached_snoc:
  "forward_reached K g (L @ [a]) q i = (forward_reached K g L q i \<or> edge_target K g (fst a) = (q, i))"
  by (auto simp: forward_reached_def)
lemma forward_pushed_snoc:
  "forward_pushed K g (L @ [a]) q i = forward_pushed K g L q i +
      (if edge_target K g (fst a) = (q, i) then snd a else 0)"
  by (simp add: forward_pushed_def)
lemma forward_found_snoc:
  "forward_found K par (L @ [a]) = (forward_found K par L \<or>
     distance (algo_state par) (fst (edge_target K (subgraph par) (fst a)))
                    (snd (edge_target K (subgraph par) (fst a))) = INF_COST K)"
  by (auto simp: forward_found_def)

lemma not_forward_reached_pushed:
  "\<not> forward_reached K g L q i \<Longrightarrow> forward_pushed K g L q i = 0"
  by (induction L rule: rev_induct) (auto simp: forward_reached_snoc forward_pushed_snoc)

lemma forward_reached_found:
  "forward_reached K (subgraph par) L q i \<Longrightarrow> distance (algo_state par) q i = INF_COST K \<Longrightarrow>
   forward_found K par L"
  by (force simp: forward_reached_def forward_found_def)

lemma forward_result_Nil: "forward_result K [] pd = pd"
proof -
  obtain par dn where pd: "pd = (par, dn)" by (cases pd)
  have "fst (forward_result K [] pd) = par"
    unfolding pd forward_result_def Let_def fst_conv snd_conv
    by (auto intro!: par_eqI state_eqI box_eqI ext simp: forward_added_def forward_distance_def)
  moreover have "snd (forward_result K [] pd) = dn"
    by (simp add: pd forward_result_def Let_def)
  ultimately show ?thesis by (simp add: pd prod_eq_iff)
qed

lemma forward_neighbor_result:
  fixes K :: "('w::len) word totem_consts"
  assumes "forward_pointers (fst pd) (fst (edge_target K (subgraph (fst pd)) e))"
  shows "forward_neighbor K e x (forward_result K L pd) = forward_result K (L @ [(e, x)]) pd"
proof -
  obtain par dn where pd: "pd = (par, dn)" by (cases pd)
  obtain q0 i0 where t: "edge_target K (subgraph par) e = (q0, i0)" by (cases "edge_target K (subgraph par) e")
  from t have t': "GET_PARTITION_ID K (edges (subgraph par) e) = q0" "GET_VERTEX_ID K (edges (subgraph par) e) = i0"
    by (simp_all add: edge_target_def)
  from assms have p: "numSPs_f (algo_state par) q0 = (if q0 = id_p par then NUMSPS q0 else OUTBOX_PUSH q0)"
    by (simp add: pd t forward_pointers_def)
  define d1 where "d1 = forward_distance K par L"
  define a1 where "a1 = forward_added K par L"
  define par1 where "par1 = fst (forward_result K L pd)"
  define dn1 where "dn1 = snd (forward_result K L pd)"
  have f1: "id_p par1 = id_p par" "subgraph par1 = subgraph par" "processor par1 = processor par"
    "inbox par1 = inbox par" "map_p par1 = map_p par"
    "distance (algo_state par1) = d1" "level (algo_state par1) = level (algo_state par)"
    "numSPs_f (algo_state par1) = numSPs_f (algo_state par)"
    "delta (algo_state par1) = delta (algo_state par)"
    "delta_local (algo_state par1) = delta_local (algo_state par)"
    "done_flag (algo_state par1) = done_flag (algo_state par)"
    "betweenness (algo_state par1) = betweenness (algo_state par)"
    "frontier_list (algo_state par1) = frontier_list (algo_state par)"
    "frontier_count (algo_state par1) = frontier_count (algo_state par)"
    "numSPs (algo_state par1) = (\<lambda>q i. if q = id_p par then numSPs (algo_state par) q i + a1 q i
                                 else numSPs (algo_state par) q i)"
    "outbox par1 = (\<lambda>q. if q = id_p par then outbox par q
                            else (outbox par q)\<lparr>push_values :=
                                   (\<lambda>i. push_values (outbox par q) i + a1 q i)\<rparr>)"
    "dn1 = (dn \<and> \<not> forward_found K par L)"
    by (simp_all add: par1_def dn1_def pd forward_result_def Let_def d1_def a1_def cong: if_cong)
  have r: "forward_result K L pd = (par1, dn1)" by (simp add: par1_def dn1_def)
  show ?thesis
    unfolding r
    apply (simp add: forward_neighbor_def Let_def f1 t' p)
    apply (simp add: pd forward_result_def Let_def atomic_add_def write_u32_def read_u32_def f1)
    apply (intro conjI impI)
    apply (auto intro!: par_eqI state_eqI box_eqI ext simp: f1 d1_def a1_def forward_distance_def forward_added_def forward_reached_snoc forward_pushed_snoc forward_found_snoc not_forward_reached_pushed t
        dest: forward_reached_found split: if_splits)
    done
qed

lemma forward_result_frame:
  "id_p (fst (forward_result K L pd)) = id_p (fst pd)"
  "subgraph (fst (forward_result K L pd)) = subgraph (fst pd)"
  "level (algo_state (fst (forward_result K L pd))) = level (algo_state (fst pd))"
  "numSPs_f (algo_state (fst (forward_result K L pd))) = numSPs_f (algo_state (fst pd))"
  by (simp_all add: forward_result_def Let_def)

lemma forward_fold:
  fixes K :: "('w::len) word totem_consts"
  assumes "\<forall>a\<in>set L. forward_pointers (fst pd) (fst (edge_target K (subgraph (fst pd)) (fst a)))"
  shows "fold (\<lambda>a. forward_neighbor K (fst a) (snd a)) L pd = forward_result K L pd"
  using assms
proof (induction L rule: rev_induct)
  case Nil
  show ?case by (simp add: forward_result_Nil)
next
  case (snoc a L)
  then have ih: "fold (\<lambda>a. forward_neighbor K (fst a) (snd a)) L pd = forward_result K L pd"
    and pa: "forward_pointers (fst pd) (fst (edge_target K (subgraph (fst pd)) (fst a)))"
    by simp_all
  have "fold (\<lambda>a. forward_neighbor K (fst a) (snd a)) (L @ [a]) pd =
        forward_neighbor K (fst a) (snd a) (fold (\<lambda>a. forward_neighbor K (fst a) (snd a)) L pd)"
    by simp
  also have "\<dots> = forward_neighbor K (fst a) (snd a) (forward_result K L pd)"
    by (simp only: ih)
  also have "\<dots> = forward_result K (L @ [(fst a, snd a)]) pd"
    by (rule forward_neighbor_result [OF pa])
  finally show ?case by simp
qed

text \<open>The number of paths of a frontier vertex is not touched by the kernel.\<close>

lemma forward_distance_frontier:
  fixes K :: "('w::len) word totem_consts"
  assumes "level (algo_state par) \<noteq> INF_COST K"
  shows "(forward_distance K par L (id_p par) v = level (algo_state par)) =
         (distance (algo_state par) (id_p par) v = level (algo_state par))"
  using assms by (auto simp: forward_distance_def)

lemma forward_added_frontier:
  fixes K :: "('w::len) word totem_consts"
  assumes "level (algo_state par) \<noteq> INF_COST K"
    and "distance (algo_state par) (id_p par) v = level (algo_state par)"
  shows "forward_added K par L (id_p par) v = 0"
  using assms by (auto simp: forward_added_def forward_distance_def)

lemma forward_result_numSPs_local:
  "numSPs (algo_state (fst (forward_result K L pd))) (id_p (fst pd)) v =
   numSPs (algo_state (fst pd)) (id_p (fst pd)) v + forward_added K (fst pd) L (id_p (fst pd)) v"
  by (simp add: forward_result_def Let_def)

lemma forward_result_distance:
  "distance (algo_state (fst (forward_result K L pd))) q i = forward_distance K (fst pd) L q i"
  by (simp add: forward_result_def Let_def)

lemma forward_cpu_edges_fold:
  fixes K :: "('w::len) word totem_consts"
  assumes "level (algo_state (fst pd)) \<noteq> INF_COST K"
    and "distance (algo_state (fst pd)) (id_p (fst pd)) v = level (algo_state (fst pd))"
    and "\<forall>e\<in>set es. forward_pointers (fst pd) (fst (edge_target K (subgraph (fst pd)) e))"
  shows "fold (forward_cpu_edge K v) es (forward_result K W pd) =
         forward_result K (W @ map (\<lambda>e. (e, numSPs (algo_state (fst pd)) (id_p (fst pd)) v)) es) pd"
  using assms(3)
proof (induction es arbitrary: W)
  case Nil
  show ?case by simp
next
  case (Cons e es)
  then have pe: "forward_pointers (fst pd) (fst (edge_target K (subgraph (fst pd)) e))"
    and pes: "\<forall>e\<in>set es. forward_pointers (fst pd) (fst (edge_target K (subgraph (fst pd)) e))"
    by simp_all
  have x: "numSPs (algo_state (fst (forward_result K W pd))) (id_p (fst (forward_result K W pd))) v
         = numSPs (algo_state (fst pd)) (id_p (fst pd)) v"
    by (simp add: forward_result_frame forward_result_numSPs_local
        forward_added_frontier [OF assms(1,2)])
  have "forward_cpu_edge K v e (forward_result K W pd) =
        forward_result K (W @ [(e, numSPs (algo_state (fst pd)) (id_p (fst pd)) v)]) pd"
    unfolding forward_cpu_edge_def x by (rule forward_neighbor_result [OF pe])
  then show ?case
    by (simp add: Cons.IH [OF pes])
qed

lemma forward_cpu_work_upto_Suc:
  "forward_cpu_work_upto par (Suc n) = forward_cpu_work_upto par n @
     (if distance (algo_state par) (id_p par) n = level (algo_state par)
      then map (\<lambda>e. (e, numSPs (algo_state par) (id_p par) n))
                        [vertices (subgraph par) n ..< vertices (subgraph par) (n + 1)]
      else [])"
  by (simp add: forward_cpu_work_upto_def)

lemma forward_cpu_vertices_fold:
  fixes K :: "('w::len) word totem_consts"
  assumes "level (algo_state par) \<noteq> INF_COST K"
    and "\<forall>v e. v < n \<longrightarrow> vertices (subgraph par) v \<le> e \<longrightarrow> e < vertices (subgraph par) (v + 1) \<longrightarrow>
           forward_pointers par (fst (edge_target K (subgraph par) e))"
  shows "fold (forward_cpu_vertex K) [0..<n] (par, dn) =
         forward_result K (forward_cpu_work_upto par n) (par, dn)"
  using assms(2)
proof (induction n)
  case 0
  show ?case by (simp add: forward_cpu_work_upto_def forward_result_Nil)
next
  case (Suc n)
  from Suc.prems
  have pn: "\<forall>v e. v < n \<longrightarrow> vertices (subgraph par) v \<le> e \<longrightarrow> e < vertices (subgraph par) (v + 1) \<longrightarrow>
           forward_pointers par (fst (edge_target K (subgraph par) e))"
    by (meson less_Suc_eq)
  have ih: "fold (forward_cpu_vertex K) [0..<n] (par, dn) =
         forward_result K (forward_cpu_work_upto par n) (par, dn)"
    by (rule Suc.IH [OF pn])
  have step: "fold (forward_cpu_vertex K) [0..<Suc n] (par, dn) =
     forward_cpu_vertex K n (forward_result K (forward_cpu_work_upto par n) (par, dn))"
    by (simp add: ih)
  show ?case
  proof (cases "distance (algo_state par) (id_p par) n = level (algo_state par)")
    case True
    have pes: "\<forall>e\<in>set [vertices (subgraph par) n ..< vertices (subgraph par) (n + 1)].
        forward_pointers (fst (par, dn)) (fst (edge_target K (subgraph (fst (par, dn))) e))"
    proof
      fix e
      assume "e \<in> set [vertices (subgraph par) n ..< vertices (subgraph par) (n + 1)]"
      then have "vertices (subgraph par) n \<le> e" "e < vertices (subgraph par) (n + 1)"
        by simp_all
      with Suc.prems [rule_format, of n e]
      show "forward_pointers (fst (par, dn)) (fst (edge_target K (subgraph (fst (par, dn))) e))"
        by simp
    qed
    have a1: "level (algo_state (fst (par, dn))) \<noteq> INF_COST K" using assms(1) by simp
    have a2: "distance (algo_state (fst (par, dn))) (id_p (fst (par, dn))) n = level (algo_state (fst (par, dn)))"
      using True by simp
    have "forward_cpu_vertex K n (forward_result K (forward_cpu_work_upto par n) (par, dn)) =
          forward_result K (forward_cpu_work_upto par (Suc n)) (par, dn)"
      using True forward_cpu_edges_fold [OF a1 a2 pes]
      by (simp add: forward_cpu_vertex_def Let_def forward_result_frame forward_result_distance
          forward_distance_frontier [OF assms(1)] forward_cpu_work_upto_Suc)
    then show ?thesis by (simp only: step)
  next
    case False
    then have "forward_cpu_vertex K n (forward_result K (forward_cpu_work_upto par n) (par, dn)) =
          forward_result K (forward_cpu_work_upto par (Suc n)) (par, dn)"
      by (simp add: forward_cpu_vertex_def Let_def forward_result_frame forward_result_distance
          forward_distance_frontier [OF assms(1)] forward_cpu_work_upto_Suc)
    then show ?thesis by (simp only: step)
  qed
qed

lemma forward_cpu_work_upto_all: "forward_cpu_work_upto par (vertex_count (subgraph par)) = forward_cpu_work par"
  by (simp add: forward_cpu_work_upto_def forward_cpu_work_def)

lemma betweenness_forward_cpu_result:
  fixes K :: "('w::len) word totem_consts"
  assumes "level (algo_state par) \<noteq> INF_COST K"
    and "\<forall>v e. v < vertex_count (subgraph par) \<longrightarrow> vertices (subgraph par) v \<le> e \<longrightarrow>
           e < vertices (subgraph par) (v + 1) \<longrightarrow>
           forward_pointers par (fst (edge_target K (subgraph par) e))"
  shows "betweenness_forward_cpu K par =
    (let pd = forward_result K (forward_cpu_work par) (par, True)
      in if \<not> snd pd
         then (fst pd)\<lparr>algo_state := (algo_state (fst pd))\<lparr>done_flag := False\<rparr>\<rparr>
         else fst pd)"
  unfolding betweenness_forward_cpu_def
  using forward_cpu_vertices_fold [OF assms(1), of "vertex_count (subgraph par)" True] assms(2)
  by (simp add: forward_cpu_work_upto_all)

lemma forward_hook_cpu:
  fixes K :: "('w::len) word totem_consts"
  assumes ne: "vertex_count (subgraph par) \<noteq> 0" and cpu: "processor par = PROCESSOR_CPU"
    and lvl: "level (algo_state par) \<noteq> INF_COST K"
    and loc: "numSPs_f (algo_state par) (id_p par) = NUMSPS (id_p par)"
    and wf: "\<forall>v e. v < vertex_count (subgraph par) \<longrightarrow> vertices (subgraph par) v \<le> e \<longrightarrow>
           e < vertices (subgraph par) (v + 1) \<longrightarrow>
           GET_PARTITION_ID K (edges (subgraph par) e) < partition_count eng"
  defines "par1 \<equiv> par\<lparr>algo_state := (algo_state par)\<lparr>numSPs_f := (\<lambda>pid.
                      if pid < partition_count eng \<and> pid \<noteq> id_p par then OUTBOX_PUSH pid
                      else numSPs_f (algo_state par) pid)\<rparr>\<rparr>"
  defines "pd \<equiv> forward_result K (forward_cpu_work par1) (par1, True)"
  shows "betweenness_forward K k eng par =
     Inr ((fst pd)\<lparr>algo_state := (algo_state (fst pd))
            \<lparr>done_flag := (done_flag (algo_state par) \<and> snd pd),
             level := level (algo_state par) + 1\<rparr>\<rparr>)"
proof -
  have l1: "level (algo_state par1) \<noteq> INF_COST K" using lvl by (simp add: par1_def)
  have p1: "\<forall>v e. v < vertex_count (subgraph par1) \<longrightarrow> vertices (subgraph par1) v \<le> e \<longrightarrow>
           e < vertices (subgraph par1) (v + 1) \<longrightarrow>
           forward_pointers par1 (fst (edge_target K (subgraph par1) e))"
    using wf loc by (auto simp: par1_def forward_pointers_def edge_target_def)
  note c = betweenness_forward_cpu_result [OF l1 p1]
  have "betweenness_forward K k eng par =
     Inr ((betweenness_forward_cpu K par1)\<lparr>algo_state := (algo_state (betweenness_forward_cpu K par1))
                      \<lparr>level := level (algo_state (betweenness_forward_cpu K par1)) + 1\<rparr>\<rparr>)"
    using ne cpu by (simp add: betweenness_forward_def Let_def par1_def)
  also have "\<dots> = Inr ((fst pd)\<lparr>algo_state := (algo_state (fst pd))
            \<lparr>done_flag := (done_flag (algo_state par) \<and> snd pd),
             level := level (algo_state par) + 1\<rparr>\<rparr>)"
    unfolding c pd_def [symmetric]
    by (auto simp: Let_def pd_def forward_result_def par1_def intro!: par_eqI state_eqI)
  finally show ?thesis .
qed

subsection \<open>Forward kernel on the GPU\<close>

lemma strided_set:
  "set (strided k n i) = {i + m * VWARP_WIDTH k |m. i + m * VWARP_WIDTH k < n}"
proof (induction k n i rule: strided.induct)
  case (1 k n i)
  have W: "0 < VWARP_WIDTH k" by (simp add: VWARP_WIDTH_def)
  show ?case
  proof (cases "i < n")
    case False
    then have "{i + m * VWARP_WIDTH k |m. i + m * VWARP_WIDTH k < n} = {}" by auto
    with False show ?thesis by (subst strided.simps) simp
  next
    case True
    have "set (strided k n i) = insert i (set (strided k n (i + VWARP_WIDTH k)))"
      using True by (subst strided.simps) simp
    also note "1.IH" [OF True]
    finally show ?thesis by (simp only: strided_insert [OF True W])
  qed
qed

lemma strided_distinct: "distinct (strided k n i)"
proof (induction k n i rule: strided.induct)
  case (1 k n i)
  have W: "0 < VWARP_WIDTH k" by (simp add: VWARP_WIDTH_def)
  show ?case
  proof (cases "i < n")
    case False
    then show ?thesis by (subst strided.simps) simp
  next
    case True
    have "i \<notin> set (strided k n (i + VWARP_WIDTH k))"
      unfolding strided_set using W by auto
    with "1.IH" [OF True] True show ?thesis by (subst strided.simps) simp
  qed
qed

lemma strided_sum_list:
  fixes h :: "nat \<Rightarrow> 'a::comm_monoid_add"
  shows "sum_list (map h (strided k n i)) =
         sum h {i + m * VWARP_WIDTH k |m. i + m * VWARP_WIDTH k < n}"
  by (simp add: sum_list_distinct_conv_sum_set strided_distinct strided_set)

lemma strided_lanes_sum_list:
  fixes h :: "nat \<Rightarrow> 'a::comm_monoid_add"
  shows "(\<Sum>lane\<leftarrow>[0..<VWARP_WIDTH k]. sum_list (map h (strided k n lane))) =
         sum_list (map h [0..<n])"
proof -
  have W: "0 < VWARP_WIDTH k" by (simp add: VWARP_WIDTH_def)
  have "(\<Sum>lane\<leftarrow>[0..<VWARP_WIDTH k]. sum_list (map h (strided k n lane))) =
        (\<Sum>lane<VWARP_WIDTH k. sum h {lane + m * VWARP_WIDTH k |m. lane + m * VWARP_WIDTH k < n})"
    by (simp only: strided_sum_list interv_sum_list_conv_sum_set_nat lessThan_atLeast0 set_upt)
  also have "\<dots> = sum h {..<n}" by (rule strided_lanes_sum [OF W])
  also have "\<dots> = sum_list (map h [0..<n])"
    by (simp add: interv_sum_list_conv_sum_set_nat lessThan_atLeast0)
  finally show ?thesis .
qed

lemma strided_lanes_set:
  "(\<Union>lane\<in>set [0..<VWARP_WIDTH k]. set (strided k n lane)) = {..<n}"
proof -
  have W: "0 < VWARP_WIDTH k" by (simp add: VWARP_WIDTH_def)
  have "(\<Union>lane\<in>set [0..<VWARP_WIDTH k]. set (strided k n lane)) =
        (\<Union>lane\<in>{..<VWARP_WIDTH k}. {j \<in> {..<n}. j mod VWARP_WIDTH k = lane})"
    by (auto simp: strided_set strided_mod)
  also have "\<dots> = {..<n}" using W by auto
  finally show ?thesis .
qed

lemma sum_list_of_concat:
  fixes xss :: "'a::comm_monoid_add list list"
  shows "sum_list (concat xss) = sum_list (map sum_list xss)"
  by (induction xss) simp_all

text \<open>The work of the GPU for a vertex is the work of the CPU in another order.\<close>

lemma forward_work_vertex_sum:
  fixes F :: "nat \<times> u32 \<Rightarrow> 'a::comm_monoid_add"
  assumes "vertices (subgraph par) v \<le> vertices (subgraph par) (v + 1)"
  shows "sum_list (map F (forward_gpu_work_vertex k par v)) =
         sum_list (map F (forward_cpu_work_vertex par v))"
proof -
  let ?a = "vertices (subgraph par) v" and ?b = "vertices (subgraph par) (v + 1)"
  let ?x = "numSPs (algo_state par) (id_p par) v"
  have "sum_list (map F (forward_gpu_work_vertex k par v)) =
        (\<Sum>lane\<leftarrow>[0..<VWARP_WIDTH k].
           sum_list (map (\<lambda>j. F (?a + j, ?x)) (strided k (?b - ?a) lane)))"
    by (simp add: forward_gpu_work_vertex_def map_concat sum_list_of_concat o_def)
  also have "\<dots> = sum_list (map (\<lambda>j. F (?a + j, ?x)) [0..<?b - ?a])"
    by (rule strided_lanes_sum_list)
  also have "\<dots> = sum_list (map (\<lambda>e. F (e, ?x)) (map (\<lambda>j. j + ?a) [0..<?b - ?a]))"
    by (simp add: o_def add.commute)
  also have "map (\<lambda>j. j + ?a) [0..<?b - ?a] = [?a..<?b]"
    using assms by (simp add: map_add_upt)
  finally show ?thesis by (simp add: forward_cpu_work_vertex_def o_def)
qed

lemma forward_work_vertex_set:
  assumes "vertices (subgraph par) v \<le> vertices (subgraph par) (v + 1)"
  shows "set (forward_gpu_work_vertex k par v) = set (forward_cpu_work_vertex par v)"
proof -
  let ?a = "vertices (subgraph par) v" and ?b = "vertices (subgraph par) (v + 1)"
  let ?x = "numSPs (algo_state par) (id_p par) v"
  have "set (forward_gpu_work_vertex k par v) =
        (\<lambda>j. (?a + j, ?x)) ` (\<Union>lane\<in>set [0..<VWARP_WIDTH k]. set (strided k (?b - ?a) lane))"
    by (auto simp: forward_gpu_work_vertex_def)
  also have "\<dots> = (\<lambda>j. (?a + j, ?x)) ` {..<?b - ?a}"
    by (simp only: strided_lanes_set)
  also have "\<dots> = (\<lambda>e. (e, ?x)) ` ((\<lambda>j. j + ?a) ` {..<?b - ?a})"
    by (auto simp: image_image add.commute)
  also have "(\<lambda>j. j + ?a) ` {..<?b - ?a} = set (map (\<lambda>j. j + ?a) [0..<?b - ?a])"
    by (simp add: lessThan_atLeast0)
  also have "map (\<lambda>j. j + ?a) [0..<?b - ?a] = [?a..<?b]"
    using assms by (simp add: map_add_upt)
  finally show ?thesis by (simp add: forward_cpu_work_vertex_def)
qed


lemma fold_of_concat: "fold f (concat xss) = fold (fold f) xss"
  by (induction xss) simp_all

lemma forward_result_frame_frontier:
  "frontier_list (algo_state (fst (forward_result K L pd))) = frontier_list (algo_state (fst pd))"
  "frontier_count (algo_state (fst (forward_result K L pd))) = frontier_count (algo_state (fst pd))"
  by (simp_all add: forward_result_def Let_def)

lemma forward_result_fold_append:
  fixes K :: "('w::len) word totem_consts"
  assumes "\<forall>a\<in>set L. forward_pointers (fst pd) (fst (edge_target K (subgraph (fst pd)) (fst a)))"
  shows "fold (\<lambda>a. forward_neighbor K (fst a) (snd a)) L (forward_result K W pd) =
         forward_result K (W @ L) pd"
  using assms
proof (induction L arbitrary: W)
  case Nil
  show ?case by simp
next
  case (Cons a L)
  then have pa: "forward_pointers (fst pd) (fst (edge_target K (subgraph (fst pd)) (fst a)))"
    and pL: "\<forall>a\<in>set L. forward_pointers (fst pd) (fst (edge_target K (subgraph (fst pd)) (fst a)))"
    by simp_all
  have "fold (\<lambda>a. forward_neighbor K (fst a) (snd a)) (a # L) (forward_result K W pd) =
        fold (\<lambda>a. forward_neighbor K (fst a) (snd a)) L
          (forward_neighbor K (fst a) (snd a) (forward_result K W pd))"
    by simp
  also have "forward_neighbor K (fst a) (snd a) (forward_result K W pd) =
             forward_result K (W @ [(fst a, snd a)]) pd"
    by (rule forward_neighbor_result [OF pa])
  also have "fold (\<lambda>a. forward_neighbor K (fst a) (snd a)) L (forward_result K (W @ [(fst a, snd a)]) pd)
             = forward_result K ((W @ [(fst a, snd a)]) @ L) pd"
    by (rule Cons.IH [OF pL])
  finally show ?case by simp
qed

lemma forward_process_neighbors_fold:
  fixes K :: "('w::len) word totem_consts"
  shows "forward_process_neighbors K k nbrs n x i pd =
         fold (\<lambda>a. forward_neighbor K (fst a) (snd a)) (map (\<lambda>j. (nbrs + j, x)) (strided k n i)) pd"
proof (induction K k nbrs n x i pd rule: forward_process_neighbors.induct)
  case (1 K k nbrs n x i pd)
  show ?case
  proof (cases "i < n")
    case False
    then show ?thesis
      by (subst forward_process_neighbors.simps, subst strided.simps) simp
  next
    case True
    have "forward_process_neighbors K k nbrs n x i pd =
          forward_process_neighbors K k nbrs n x (i + VWARP_WIDTH k)
            (forward_neighbor K (nbrs + i) x pd)"
      using True by (subst forward_process_neighbors.simps) simp
    also note "1.IH" [OF True]
    also have "fold (\<lambda>a. forward_neighbor K (fst a) (snd a))
                 (map (\<lambda>j. (nbrs + j, x)) (strided k n (i + VWARP_WIDTH k)))
                 (forward_neighbor K (nbrs + i) x pd) =
               fold (\<lambda>a. forward_neighbor K (fst a) (snd a))
                 (map (\<lambda>j. (nbrs + j, x)) (strided k n i)) pd"
      using True by (subst (2) strided.simps) simp
    finally show ?thesis .
  qed
qed

lemma forward_process_neighbors_lanes:
  fixes K :: "('w::len) word totem_consts"
  shows "forward_process_neighbors K k nbrs n x =
         (\<lambda>i. fold (\<lambda>a. forward_neighbor K (fst a) (snd a)) (map (\<lambda>j. (nbrs + j, x)) (strided k n i)))"
  by (intro ext) (rule forward_process_neighbors_fold)

lemma forward_gpu_vertex_result:
  fixes K :: "('w::len) word totem_consts"
  assumes lvl: "level (algo_state par) \<noteq> INF_COST K"
    and fl: "frontier_list (algo_state par) i = v"
    and dv: "distance (algo_state par) (id_p par) v = level (algo_state par)"
    and ptr: "\<forall>e. vertices (subgraph par) v \<le> e \<longrightarrow> e < vertices (subgraph par) (v + 1) \<longrightarrow>
                forward_pointers par (fst (edge_target K (subgraph par) e))"
    and mono: "vertices (subgraph par) v \<le> vertices (subgraph par) (v + 1)"
  shows "forward_gpu_vertex K k i (forward_result K W (par, dn)) =
         forward_result K (W @ forward_gpu_work_vertex k par v) (par, dn)"
proof -
  let ?pd = "forward_result K W (par, dn)"
  let ?FN = "\<lambda>a. forward_neighbor K (fst a) (snd a)"
  let ?a = "vertices (subgraph par) v" and ?b = "vertices (subgraph par) (v + 1)"
  let ?x = "numSPs (algo_state par) (id_p par) v"
  have l1: "level (algo_state (fst (par, dn))) \<noteq> INF_COST K" using lvl by simp
  have d1: "distance (algo_state (fst (par, dn))) (id_p (fst (par, dn))) v =
            level (algo_state (fst (par, dn)))" using dv by simp
  have x: "numSPs (algo_state (fst ?pd)) (id_p (fst ?pd)) v = ?x"
    using forward_result_numSPs_local [of K W "(par, dn)" v]
      forward_added_frontier [OF l1 d1, of W]
    by (simp add: forward_result_frame)
  have f: "frontier_list (algo_state (fst ?pd)) i = v"
    by (simp add: forward_result_frame_frontier fl)
  have s: "subgraph (fst ?pd) = subgraph par" by (simp add: forward_result_frame)
  have "forward_gpu_vertex K k i ?pd =
        fold (\<lambda>warp_offset. forward_process_neighbors K k ?a (?b - ?a) ?x warp_offset)
          [0..<VWARP_WIDTH k] ?pd"
    by (simp only: forward_gpu_vertex_def Let_def f s x)
  also have "\<dots> = fold (fold ?FN)
          (map (\<lambda>warp_offset. map (\<lambda>j. (?a + j, ?x)) (strided k (?b - ?a) warp_offset))
             [0..<VWARP_WIDTH k]) ?pd"
    by (simp only: forward_process_neighbors_lanes fold_map o_def)
  also have "\<dots> = fold ?FN (forward_gpu_work_vertex k par v) ?pd"
    by (simp only: fold_of_concat forward_gpu_work_vertex_def)
  also have "\<dots> = forward_result K (W @ forward_gpu_work_vertex k par v) (par, dn)"
  proof (rule forward_result_fold_append)
    show "\<forall>a\<in>set (forward_gpu_work_vertex k par v).
            forward_pointers (fst (par, dn)) (fst (edge_target K (subgraph (fst (par, dn))) (fst a)))"
      unfolding forward_work_vertex_set [OF mono]
      using ptr by (auto simp: forward_cpu_work_vertex_def)
  qed
  finally show ?thesis .
qed

lemma forward_gpu_vertices_fold:
  fixes K :: "('w::len) word totem_consts"
  assumes lvl: "level (algo_state par) \<noteq> INF_COST K"
    and fr: "\<forall>i<n. frontier_list (algo_state par) i = fr ! i" and len: "n \<le> length fr"
    and ok: "\<forall>v\<in>set fr.
           distance (algo_state par) (id_p par) v = level (algo_state par) \<and>
           vertices (subgraph par) v \<le> vertices (subgraph par) (v + 1) \<and>
           (\<forall>e. vertices (subgraph par) v \<le> e \<longrightarrow> e < vertices (subgraph par) (v + 1) \<longrightarrow>
                forward_pointers par (fst (edge_target K (subgraph par) e)))"
  shows "fold (forward_gpu_vertex K k) [0..<n] (par, dn) =
         forward_result K (concat (map (forward_gpu_work_vertex k par) (take n fr))) (par, dn)"
  using fr len
proof (induction n)
  case 0
  show ?case by (simp add: forward_result_Nil)
next
  case (Suc n)
  then have n: "n < length fr" and fn: "frontier_list (algo_state par) n = fr ! n"
    and ih: "fold (forward_gpu_vertex K k) [0..<n] (par, dn) =
         forward_result K (concat (map (forward_gpu_work_vertex k par) (take n fr))) (par, dn)"
    by simp_all
  from n have m: "fr ! n \<in> set fr" by simp
  have t: "take (Suc n) fr = take n fr @ [fr ! n]"
    using n by (simp add: take_Suc_conv_app_nth)
  have "fold (forward_gpu_vertex K k) [0..<Suc n] (par, dn) =
        forward_gpu_vertex K k n (fold (forward_gpu_vertex K k) [0..<n] (par, dn))"
    by simp
  also have "\<dots> = forward_gpu_vertex K k n
        (forward_result K (concat (map (forward_gpu_work_vertex k par) (take n fr))) (par, dn))"
    by (simp only: ih)
  also have "\<dots> = forward_result K
        (concat (map (forward_gpu_work_vertex k par) (take n fr)) @
         forward_gpu_work_vertex k par (fr ! n)) (par, dn)"
    using ok m by (intro forward_gpu_vertex_result [OF lvl fn]) blast+
  finally show ?case by (simp add: t)
qed

text \<open>The result depends on the work through what it reaches, pushes and finds.\<close>

lemma forward_result_cong:
  fixes K :: "('w::len) word totem_consts"
  assumes "\<And>q i. forward_reached K (subgraph par) L q i = forward_reached K (subgraph par) L' q i"
    and "\<And>q i. forward_pushed K (subgraph par) L q i = forward_pushed K (subgraph par) L' q i"
    and "forward_found K par L = forward_found K par L'"
  shows "forward_result K L (par, dn) = forward_result K L' (par, dn)"
proof -
  have d: "forward_distance K par L = forward_distance K par L'"
    by (simp add: forward_distance_def assms(1) fun_eq_iff)
  have a: "forward_added K par L = forward_added K par L'"
    by (simp add: forward_added_def d assms(2) fun_eq_iff)
  show ?thesis
    by (simp add: forward_result_def Let_def d a assms(3) cong: if_cong)
qed

lemma forward_work_permuted:
  fixes K :: "('w::len) word totem_consts"
  assumes "\<forall>v\<in>set fr. vertices (subgraph par) v \<le> vertices (subgraph par) (v + 1)"
  shows "forward_result K (concat (map (forward_gpu_work_vertex k par) fr)) (par, dn) =
         forward_result K (concat (map (forward_cpu_work_vertex par) fr)) (par, dn)"
proof (rule forward_result_cong)
  have s: "set (concat (map (forward_gpu_work_vertex k par) fr)) =
           set (concat (map (forward_cpu_work_vertex par) fr))"
    using assms by (simp add: forward_work_vertex_set)
  show "forward_reached K (subgraph par) (concat (map (forward_gpu_work_vertex k par) fr)) q i =
        forward_reached K (subgraph par) (concat (map (forward_cpu_work_vertex par) fr)) q i" for q i
    by (simp only: forward_reached_def s)
  show "forward_found K par (concat (map (forward_gpu_work_vertex k par) fr)) =
        forward_found K par (concat (map (forward_cpu_work_vertex par) fr))"
    by (simp only: forward_found_def s)
  show "forward_pushed K (subgraph par) (concat (map (forward_gpu_work_vertex k par) fr)) q i =
        forward_pushed K (subgraph par) (concat (map (forward_cpu_work_vertex par) fr)) q i" for q i
  proof -
    let ?F = "\<lambda>a. if edge_target K (subgraph par) (fst a) = (q, i) then snd a else (0::u32)"
    have "sum_list (map ?F (concat (map (forward_gpu_work_vertex k par) fr))) =
          sum_list (map (\<lambda>v. sum_list (map ?F (forward_gpu_work_vertex k par v))) fr)"
      by (simp add: map_concat sum_list_of_concat o_def)
    also have "\<dots> = sum_list (map (\<lambda>v. sum_list (map ?F (forward_cpu_work_vertex par v))) fr)"
      using assms by (intro arg_cong [where f = sum_list] map_cong refl forward_work_vertex_sum) blast
    also have "\<dots> = sum_list (map ?F (concat (map (forward_cpu_work_vertex par) fr)))"
      by (simp add: map_concat sum_list_of_concat o_def)
    finally show ?thesis by (simp only: forward_pushed_def)
  qed
qed

lemma forward_cpu_work_concat:
  "forward_cpu_work par =
     concat (map (forward_cpu_work_vertex par)
       (filter (\<lambda>v. distance (algo_state par) (id_p par) v = level (algo_state par))
          [0..<vertex_count (subgraph par)]))"
  by (simp add: forward_cpu_work_def forward_cpu_work_vertex_def [abs_def])


lemma forward_hook_gpu:
  fixes K :: "('w::len) word totem_consts"
  assumes ne: "vertex_count (subgraph par) \<noteq> 0" and gpu: "processor par = PROCESSOR_GPU"
    and lvl: "level (algo_state par) \<noteq> INF_COST K"
    and loc: "numSPs_f (algo_state par) (id_p par) = NUMSPS (id_p par)"
    and wf: "\<forall>v e. v < vertex_count (subgraph par) \<longrightarrow> vertices (subgraph par) v \<le> e \<longrightarrow>
           e < vertices (subgraph par) (v + 1) \<longrightarrow>
           GET_PARTITION_ID K (edges (subgraph par) e) < partition_count eng"
    and mono: "\<forall>v. v < vertex_count (subgraph par) \<longrightarrow>
           vertices (subgraph par) v \<le> vertices (subgraph par) (v + 1)"
  defines "par1 \<equiv> par\<lparr>algo_state := (algo_state par)\<lparr>numSPs_f := (\<lambda>pid.
                      if pid < partition_count eng \<and> pid \<noteq> id_p par then OUTBOX_PUSH pid
                      else numSPs_f (algo_state par) pid)\<rparr>\<rparr>"
  defines "par2 \<equiv> build_frontier (engine_set_outbox eng 0 par1) (level (algo_state par))"
  defines "pd \<equiv> forward_result K (forward_cpu_work par2) (par2, True)"
  shows "betweenness_forward K k eng par =
     Inr ((fst pd)\<lparr>algo_state := (algo_state (fst pd))
            \<lparr>done_flag := (done_flag (algo_state par) \<and> snd pd),
             level := level (algo_state par) + 1\<rparr>\<rparr>)"
proof -
  define fr where "fr = filter (\<lambda>v. distance (algo_state par) (id_p par) v = level (algo_state par))
                 [0..<vertex_count (subgraph par)]"
  have s2: "subgraph par2 = subgraph par" "id_p par2 = id_p par"
    "distance (algo_state par2) = distance (algo_state par)"
    "level (algo_state par2) = level (algo_state par)"
    "numSPs_f (algo_state par2) = numSPs_f (algo_state par1)"
    "done_flag (algo_state par2) = done_flag (algo_state par)"
    "frontier_count (algo_state par2) = length fr"
    by (simp_all add: par2_def par1_def build_frontier_def engine_set_outbox_def Let_def fr_def)
  have fl: "\<forall>i<length fr. frontier_list (algo_state par2) i = fr ! i"
    by (simp add: par2_def par1_def build_frontier_def engine_set_outbox_def Let_def fr_def)
  have l2: "level (algo_state par2) \<noteq> INF_COST K" using lvl by (simp add: s2)
  have ok: "\<forall>v\<in>set fr.
           distance (algo_state par2) (id_p par2) v = level (algo_state par2) \<and>
           vertices (subgraph par2) v \<le> vertices (subgraph par2) (v + 1) \<and>
           (\<forall>e. vertices (subgraph par2) v \<le> e \<longrightarrow> e < vertices (subgraph par2) (v + 1) \<longrightarrow>
                forward_pointers par2 (fst (edge_target K (subgraph par2) e)))"
    using wf loc mono
    by (auto simp: s2 fr_def forward_pointers_def edge_target_def par1_def)
  have m2: "\<forall>v\<in>set fr. vertices (subgraph par2) v \<le> vertices (subgraph par2) (v + 1)"
    using ok by blast
  have w2: "forward_cpu_work par2 = concat (map (forward_cpu_work_vertex par2) fr)"
    by (simp add: forward_cpu_work_concat s2 fr_def)
  have kern: "fold (forward_gpu_vertex K k) [0..<length fr] (par2, True) = pd"
    unfolding pd_def w2
    using forward_gpu_vertices_fold [OF l2 fl order_refl ok, of k True]
      forward_work_permuted [OF m2, of K k True]
    by simp
  have empty: "length fr = 0 \<Longrightarrow> pd = (par2, True)"
    by (simp add: pd_def w2 forward_result_Nil)
  have g: "betweenness_forward_gpu K k eng par1 =
           (if \<not> snd pd then (fst pd)\<lparr>algo_state := (algo_state (fst pd))\<lparr>done_flag := False\<rparr>\<rparr>
            else fst pd)"
  proof -
    have lv: "level (algo_state (engine_set_outbox eng 0 par1)) = level (algo_state par)"
      by (simp add: engine_set_outbox_def par1_def)
    have p2: "build_frontier (engine_set_outbox eng 0 par1)
                (level (algo_state (engine_set_outbox eng 0 par1))) = par2"
      by (simp only: par2_def lv)
    show ?thesis
    proof (cases "length fr = 0")
      case True
      then show ?thesis
        using empty
        by (simp add: betweenness_forward_gpu_def Let_def p2 s2(7))
    next
      case False
      then show ?thesis
        using kern
        by (simp add: betweenness_forward_gpu_def Let_def p2 s2(7)
              betweenness_gpu_forward_kernel_def)
    qed
  qed
  have df: "done_flag (algo_state (fst pd)) = done_flag (algo_state par)"
    "level (algo_state (fst pd)) = level (algo_state par)"
    by (simp_all add: pd_def forward_result_def Let_def s2)
  have "betweenness_forward K k eng par =
     Inr ((betweenness_forward_gpu K k eng par1)
            \<lparr>algo_state := (algo_state (betweenness_forward_gpu K k eng par1))
               \<lparr>level := level (algo_state (betweenness_forward_gpu K k eng par1)) + 1\<rparr>\<rparr>)"
    using ne gpu by (simp add: betweenness_forward_def Let_def par1_def)
  also have "\<dots> = Inr ((fst pd)\<lparr>algo_state := (algo_state (fst pd))
            \<lparr>done_flag := (done_flag (algo_state par) \<and> snd pd),
             level := level (algo_state par) + 1\<rparr>\<rparr>)"
    unfolding g using df
    by (auto intro!: par_eqI state_eqI)
  finally show ?thesis .
qed

text \<open>
  C2. The forward kernel hook of a partition with vertices, on a CPU
  (\<^verbatim>\<open>betweenness_forward_cpu\<close>) or on a GPU (\<^verbatim>\<open>betweenness_forward_gpu\<close>, whose virtual
  warps run \<^verbatim>\<open>forward_process_neighbors\<close>), whose level is not \<open>INF_COST\<close>, whose pointer
  \<open>numSPs_f\<close> for the partition itself still is the local numSPs array, whose neighbours
  all lie in existing partitions and whose array \<open>vertices\<close> is ascending. The kernel
  handles the neighbours \<open>(nbr_pid, nbr)\<close> of the local vertices \<open>v\<close> whose distance is
  the level (\<open>forward_cpu_work\<close>). An entry of a distance array, local or mirror, that
  was \<open>INF_COST\<close> and is such a neighbour becomes \<open>level + 1\<close>, and no other distance
  changes; the done flag is cleared when there is such an entry, and kept otherwise. An
  entry whose distance then is \<open>level + 1\<close> receives the sum of \<open>numSPs[v]\<close> over its
  parents \<open>v\<close> in the work: in the local numSPs array for \<open>nbr_pid\<close> the partition
  itself, in the push buffer of the outbox for \<open>nbr_pid\<close> otherwise. On a GPU the push
  buffers are set to zero before (\<^verbatim>\<open>engine_set_outbox\<close>), on a CPU the sum is added to
  what they held. The numSPs mirrors of the remote partitions are not written, the level
  is incremented, and on a GPU the frontier counts the vertices at the level.
\<close>

theorem betweenness_forward_effect:
  fixes K :: "('w::len) word totem_consts"
  assumes "vertex_count (subgraph par) \<noteq> 0"
    and "processor par = PROCESSOR_CPU \<or> processor par = PROCESSOR_GPU"
    and "level (algo_state par) \<noteq> INF_COST K"
    and "numSPs_f (algo_state par) (id_p par) = NUMSPS (id_p par)"
    and "\<forall>v e. v < vertex_count (subgraph par) \<longrightarrow> vertices (subgraph par) v \<le> e \<longrightarrow>
           e < vertices (subgraph par) (v + 1) \<longrightarrow>
           GET_PARTITION_ID K (edges (subgraph par) e) < partition_count eng"
    and "\<forall>v. v < vertex_count (subgraph par) \<longrightarrow>
           vertices (subgraph par) v \<le> vertices (subgraph par) (v + 1)"
  shows "case betweenness_forward K k eng par of
           Inl e \<Rightarrow> False
         | Inr par' \<Rightarrow>
            (\<forall>q i. distance (algo_state par') q i =
                 (if distance (algo_state par) q i = INF_COST K \<and>
                     forward_reached K (subgraph par) (forward_cpu_work par) q i
                  then level (algo_state par) + 1
                  else distance (algo_state par) q i)) \<and>
            (\<forall>i. numSPs (algo_state par') (id_p par) i =
                 numSPs (algo_state par) (id_p par) i +
                 (if distance (algo_state par') (id_p par) i = level (algo_state par) + 1
                  then forward_pushed K (subgraph par) (forward_cpu_work par) (id_p par) i
                  else 0)) \<and>
            (\<forall>q i. q \<noteq> id_p par \<longrightarrow>
                 push_values (outbox par' q) i =
                 push_values (outbox (if processor par = PROCESSOR_GPU
                                      then engine_set_outbox eng 0 par else par) q) i +
                 (if distance (algo_state par') q i = level (algo_state par) + 1
                  then forward_pushed K (subgraph par) (forward_cpu_work par) q i
                  else 0)) \<and>
            (\<forall>q. q \<noteq> id_p par \<longrightarrow> numSPs (algo_state par') q = numSPs (algo_state par) q) \<and>
            done_flag (algo_state par') =
              (done_flag (algo_state par) \<and> \<not> forward_found K par (forward_cpu_work par)) \<and>
            level (algo_state par') = level (algo_state par) + 1 \<and>
            frontier_count (algo_state par') =
              (if processor par = PROCESSOR_GPU
               then length (filter (\<lambda>v. distance (algo_state par) (id_p par) v =
                                        level (algo_state par))
                              [0..<vertex_count (subgraph par)])
               else frontier_count (algo_state par))"
proof -
  define par1 where "par1 = par\<lparr>algo_state := (algo_state par)\<lparr>numSPs_f := (\<lambda>pid.
                      if pid < partition_count eng \<and> pid \<noteq> id_p par then OUTBOX_PUSH pid
                      else numSPs_f (algo_state par) pid)\<rparr>\<rparr>"
  define par2 where "par2 = build_frontier (engine_set_outbox eng 0 par1) (level (algo_state par))"
  from assms(2) show ?thesis
  proof
    assume cpu: "processor par = PROCESSOR_CPU"
    have w: "forward_cpu_work par1 = forward_cpu_work par"
      by (simp add: forward_cpu_work_def par1_def)
    have f: "forward_found K par1 L = forward_found K par L" for L
      by (simp add: forward_found_def par1_def)
    have d: "forward_distance K par1 L = forward_distance K par L" for L
      by (simp add: forward_distance_def par1_def fun_eq_iff)
    have a: "forward_added K par1 L = forward_added K par L" for L
      by (simp add: forward_added_def d fun_eq_iff) (simp add: par1_def)
    show ?thesis
      unfolding forward_hook_cpu [OF assms(1) cpu assms(3-5)] par1_def [symmetric] w
      by (simp add: forward_result_def Let_def f d a cpu)
         (simp add: par1_def forward_distance_def forward_added_def)
  next
    assume gpu: "processor par = PROCESSOR_GPU"
    have w: "forward_cpu_work par2 = forward_cpu_work par"
      by (simp add: forward_cpu_work_def par2_def par1_def build_frontier_def
            engine_set_outbox_def Let_def)
    have f: "forward_found K par2 L = forward_found K par L" for L
      by (simp add: forward_found_def par2_def par1_def build_frontier_def
            engine_set_outbox_def Let_def)
    have d: "forward_distance K par2 L = forward_distance K par L" for L
      by (simp add: forward_distance_def par2_def par1_def build_frontier_def
            engine_set_outbox_def Let_def fun_eq_iff)
    have a: "forward_added K par2 L = forward_added K par L" for L
      by (simp add: forward_added_def d fun_eq_iff)
         (simp add: par2_def par1_def build_frontier_def engine_set_outbox_def Let_def)
    show ?thesis
      unfolding forward_hook_gpu [OF assms(1) gpu assms(3-6)] par1_def [symmetric]
        par2_def [symmetric] w
      by (simp add: forward_result_def Let_def f d a gpu)
         (simp add: par2_def par1_def build_frontier_def engine_set_outbox_def Let_def
            forward_distance_def forward_added_def)
  qed
qed

theorem betweenness_forward_effect_witness:
  "vertex_count (subgraph ex_forward_par) \<noteq> 0 \<and> processor ex_forward_par = PROCESSOR_CPU \<and>
   level (algo_state ex_forward_par) \<noteq> INF_COST ex_K \<and>
   numSPs_f (algo_state ex_forward_par) (id_p ex_forward_par) = NUMSPS (id_p ex_forward_par) \<and>
   (case betweenness_forward ex_K 5 (ex_eng 3) ex_forward_par of
      Inl e \<Rightarrow> False
    | Inr par' \<Rightarrow>
        distance (algo_state par') 0 1 = 1 \<and> distance (algo_state par') 1 0 = 1 \<and>
        distance (algo_state par') 1 1 = - 1 \<and> distance (algo_state par') 0 0 = 0 \<and>
        numSPs (algo_state par') 0 1 = 1 \<and> push_values (outbox par' 1) 0 = 1 \<and>
        push_values (outbox par' 1) 1 = 0 \<and> \<not> done_flag (algo_state par') \<and>
        level (algo_state par') = 1 \<and> frontier_count (algo_state par') = 0) \<and>
   vertex_count (subgraph ex_forward_gpu_par) \<noteq> 0 \<and>
   processor ex_forward_gpu_par = PROCESSOR_GPU \<and>
   level (algo_state ex_forward_gpu_par) \<noteq> INF_COST ex_K \<and>
   numSPs_f (algo_state ex_forward_gpu_par) (id_p ex_forward_gpu_par) =
     NUMSPS (id_p ex_forward_gpu_par) \<and>
   push_values (outbox ex_forward_gpu_par 1) 0 = 7 \<and>
   push_values (outbox ex_forward_gpu_par 1) 1 = 7 \<and>
   (case betweenness_forward ex_K 5 (ex_eng 3) ex_forward_gpu_par of
      Inl e \<Rightarrow> False
    | Inr par' \<Rightarrow>
        distance (algo_state par') 0 1 = 1 \<and> distance (algo_state par') 1 0 = 1 \<and>
        distance (algo_state par') 1 1 = - 1 \<and> distance (algo_state par') 0 0 = 0 \<and>
        numSPs (algo_state par') 0 1 = 1 \<and> push_values (outbox par' 1) 0 = 1 \<and>
        push_values (outbox par' 1) 1 = 0 \<and> \<not> done_flag (algo_state par') \<and>
        level (algo_state par') = 1 \<and> frontier_count (algo_state par') = 1)"
proof -
  have g: "subgraph ex_forward_par = ex_graph0" "subgraph ex_forward_gpu_par = ex_graph0"
    by (simp_all add: ex_forward_par_def ex_forward_gpu_par_def ex_par_def)
  have a1: "vertex_count (subgraph ex_forward_par) \<noteq> 0"
    "vertex_count (subgraph ex_forward_gpu_par) \<noteq> 0"
    by (simp_all add: g ex_graph0_def)
  have a2: "processor ex_forward_par = PROCESSOR_CPU"
    "processor ex_forward_gpu_par = PROCESSOR_GPU"
    by (simp_all add: ex_forward_par_def ex_forward_gpu_par_def ex_par_def)
  have a3: "level (algo_state ex_forward_par) \<noteq> INF_COST ex_K"
    "level (algo_state ex_forward_gpu_par) \<noteq> INF_COST ex_K"
    by (simp_all add: ex_forward_par_def ex_forward_gpu_par_def ex_par_def ex_state_def ex_K_def)
  have a4: "numSPs_f (algo_state ex_forward_par) (id_p ex_forward_par) = NUMSPS (id_p ex_forward_par)"
    "numSPs_f (algo_state ex_forward_gpu_par) (id_p ex_forward_gpu_par) =
       NUMSPS (id_p ex_forward_gpu_par)"
    by (simp_all add: ex_forward_par_def ex_forward_gpu_par_def ex_par_def ex_state_def)
  have e: "e < 4 \<Longrightarrow> GET_PARTITION_ID ex_K ([1, 16, 0, 17] ! e) < 2" for e
  proof -
    assume "e < 4"
    then have "e = 0 \<or> e = 1 \<or> e = 2 \<or> e = 3" by arith
    then show ?thesis by (auto simp: GET_PARTITION_ID_def ex_K_def)
  qed
  have a5: "\<forall>v e. v < vertex_count ex_graph0 \<longrightarrow>
      vertices ex_graph0 v \<le> e \<longrightarrow>
      e < vertices ex_graph0 (v + 1) \<longrightarrow>
      GET_PARTITION_ID ex_K (edges ex_graph0 e) < partition_count (ex_eng 3)"
  proof (intro allI impI)
    fix v e
    assume "v < vertex_count ex_graph0" and "e < vertices ex_graph0 (v + 1)"
    then have "v = 0 \<or> v = 1" and "e < [0, 2, 4] ! (v + 1)"
      by (auto simp: ex_graph0_def)
    then have "e < 4" by auto
    then show "GET_PARTITION_ID ex_K (edges ex_graph0 e) < partition_count (ex_eng 3)"
      using e by (simp add: ex_graph0_def ex_eng_def)
  qed
  have a6: "\<forall>v. v < vertex_count ex_graph0 \<longrightarrow> vertices ex_graph0 v \<le> vertices ex_graph0 (v + 1)"
  proof (intro allI impI)
    fix v
    assume "v < vertex_count ex_graph0"
    then have "v = 0 \<or> v = 1" by (auto simp: ex_graph0_def)
    then show "vertices ex_graph0 v \<le> vertices ex_graph0 (v + 1)"
      by (auto simp: ex_graph0_def)
  qed
  have w: "forward_cpu_work ex_forward_par = [(0, 1), (1, 1)]"
    "forward_cpu_work ex_forward_gpu_par = [(0, 1), (1, 1)]"
    by (simp_all add: forward_cpu_work_def ex_forward_par_def ex_forward_gpu_par_def ex_par_def
        ex_graph0_def ex_state_def upt_rec)
  have t: "edge_target ex_K ex_graph0 0 = (0, 1)" "edge_target ex_K ex_graph0 1 = (1, 0)"
    by (simp_all add: edge_target_def GET_PARTITION_ID_def GET_VERTEX_ID_def ex_K_def ex_graph0_def)
  have s: "id_p ex_forward_par = 0" "INF_COST ex_K = - 1"
    "distance (algo_state ex_forward_par) = (\<lambda>q i. if q = 0 \<and> i = 0 then 0 else - 1)"
    "numSPs (algo_state ex_forward_par) = (\<lambda>q i. if q = 0 \<and> i = 0 then 1 else 0)"
    "level (algo_state ex_forward_par) = 0" "done_flag (algo_state ex_forward_par)"
    "push_values (outbox ex_forward_par 1) = (\<lambda>i. 0)"
    "frontier_count (algo_state ex_forward_par) = 0"
    by (simp_all add: ex_forward_par_def ex_par_def ex_state_def ex_K_def ex_box_def)
  have s': "id_p ex_forward_gpu_par = 0"
    "distance (algo_state ex_forward_gpu_par) = (\<lambda>q i. if q = 0 \<and> i = 0 then 0 else - 1)"
    "numSPs (algo_state ex_forward_gpu_par) = (\<lambda>q i. if q = 0 \<and> i = 0 then 1 else 0)"
    "level (algo_state ex_forward_gpu_par) = 0" "done_flag (algo_state ex_forward_gpu_par)"
    "push_values (outbox ex_forward_gpu_par 1) = (\<lambda>i. 7)"
    "push_values (outbox (engine_set_outbox (ex_eng 3) 0 ex_forward_gpu_par) 1) = (\<lambda>i. if i < 2 then 0 else 7)"
    by (simp_all add: ex_forward_gpu_par_def ex_par_def ex_state_def ex_K_def ex_box_def
        engine_set_outbox_def ex_eng_def totem_memset_def fun_eq_iff)
  have c: "length (filter (\<lambda>v. (if v = 0 then 0 else - 1) = (0 :: 16 word)) [0..<vertex_count ex_graph0]) = 1"
    by (simp add: ex_graph0_def upt_rec)
  note th = betweenness_forward_effect [of ex_forward_par ex_K "ex_eng 3" 5, unfolded g,
      OF a1(1) [unfolded g] disjI1 [OF a2(1)] a3(1) a4(1) a5 a6]
  note th' = betweenness_forward_effect [of ex_forward_gpu_par ex_K "ex_eng 3" 5, unfolded g,
      OF a1(2) [unfolded g] disjI2 [OF a2(2)] a3(2) a4(2) a5 a6]
  have r1: "case betweenness_forward ex_K 5 (ex_eng 3) ex_forward_par of
      Inl e \<Rightarrow> False
    | Inr par' \<Rightarrow>
        distance (algo_state par') 0 1 = 1 \<and> distance (algo_state par') 1 0 = 1 \<and>
        distance (algo_state par') 1 1 = - 1 \<and> distance (algo_state par') 0 0 = 0 \<and>
        numSPs (algo_state par') 0 1 = 1 \<and> push_values (outbox par' 1) 0 = 1 \<and>
        push_values (outbox par' 1) 1 = 0 \<and> \<not> done_flag (algo_state par') \<and>
        level (algo_state par') = 1 \<and> frontier_count (algo_state par') = 0"
    using th
    by (auto split: sum.splits simp: a2 w t s forward_reached_def forward_pushed_def
        forward_found_def g simp del: One_nat_def)
  have r2: "case betweenness_forward ex_K 5 (ex_eng 3) ex_forward_gpu_par of
      Inl e \<Rightarrow> False
    | Inr par' \<Rightarrow>
        distance (algo_state par') 0 1 = 1 \<and> distance (algo_state par') 1 0 = 1 \<and>
        distance (algo_state par') 1 1 = - 1 \<and> distance (algo_state par') 0 0 = 0 \<and>
        numSPs (algo_state par') 0 1 = 1 \<and> push_values (outbox par' 1) 0 = 1 \<and>
        push_values (outbox par' 1) 1 = 0 \<and> \<not> done_flag (algo_state par') \<and>
        level (algo_state par') = 1 \<and> frontier_count (algo_state par') = 1"
    using th' c
    by (auto split: sum.splits simp: a2 w t s(2) s' forward_reached_def forward_pushed_def
        forward_found_def g simp del: One_nat_def)
  have b: "push_values (outbox ex_forward_gpu_par 1) 0 = 7"
    "push_values (outbox ex_forward_gpu_par 1) 1 = 7"
    by (simp_all add: ex_forward_gpu_par_def ex_par_def ex_box_def)
  show ?thesis using a1 a2 a3 a4 r1 r2 b by blast
qed

subsection \<open>Backward kernel on the CPU\<close>

lemma with_scores_fields [simp]:
  "id_p (with_scores par D B) = id_p par"
  "subgraph (with_scores par D B) = subgraph par"
  "processor (with_scores par D B) = processor par"
  "outbox (with_scores par D B) = outbox par"
  "inbox (with_scores par D B) = inbox par"
  "map_p (with_scores par D B) = map_p par"
  "distance (algo_state (with_scores par D B)) = distance (algo_state par)"
  "numSPs (algo_state (with_scores par D B)) = numSPs (algo_state par)"
  "numSPs_f (algo_state (with_scores par D B)) = numSPs_f (algo_state par)"
  "delta (algo_state (with_scores par D B)) = delta (algo_state par)"
  "delta_local (algo_state (with_scores par D B)) = D"
  "done_flag (algo_state (with_scores par D B)) = done_flag (algo_state par)"
  "level (algo_state (with_scores par D B)) = level (algo_state par)"
  "betweenness (algo_state (with_scores par D B)) = B"
  "frontier_list (algo_state (with_scores par D B)) = frontier_list (algo_state par)"
  "frontier_count (algo_state (with_scores par D B)) = frontier_count (algo_state par)"
  by (simp_all add: with_scores_def)


lemma with_scores_twice [simp]: "with_scores (with_scores par D B) D' B' = with_scores par D' B'"
  by (simp add: with_scores_def)

text \<open>
  The term that the code computes in a partition whose local dependencies agree with
  the original ones away from the level.
\<close>

lemma backward_term_with_scores:
  fixes K :: "('w::len) word totem_consts"
  assumes "backward_pointers par (fst (edge_target K (subgraph par) e))"
    and "\<forall>u. distance (algo_state par) (id_p par) u \<noteq> level (algo_state par) \<longrightarrow>
             D u = delta_local (algo_state par) u"
  shows "(case backward_term K (with_scores par D B) (numSPs (algo_state par) (id_p par) v) e of
            Some t \<Rightarrow> t | None \<Rightarrow> 0) = dependency_term K par v e"
    and "(backward_term K (with_scores par D B) (numSPs (algo_state par) (id_p par) v) e = None)
         = (distance (algo_state par) (fst (edge_target K (subgraph par) e))
              (snd (edge_target K (subgraph par) e)) \<noteq> level (algo_state par) + 1)"
  using assms
  by (auto simp: backward_term_def dependency_term_def Let_def backward_pointers_def
      edge_target_def read_score_def neighbor_delta_def score_of_u32_def)






subsection \<open>The partial sums of a virtual warp\<close>

lemma backward_lane_sum_eq:
  fixes K :: "('w::len) word totem_consts"
  shows "backward_lane_sum K k par nbrs n x i acc =
     acc + sum (\<lambda>j. case backward_term K par x (nbrs + j) of Some t \<Rightarrow> t | None \<Rightarrow> 0)
             {i + m * VWARP_WIDTH k |m. i + m * VWARP_WIDTH k < n}"
proof (induction K k par nbrs n x i acc rule: backward_lane_sum.induct)
  case (1 K k par nbrs n x i acc)
  let ?g = "\<lambda>j. case backward_term K par x (nbrs + j) of Some t \<Rightarrow> t | None \<Rightarrow> 0"
  have W: "0 < VWARP_WIDTH k" by (simp add: VWARP_WIDTH_def)
  show ?case
  proof (cases "i < n")
    case False
    then have "{i + m * VWARP_WIDTH k |m. i + m * VWARP_WIDTH k < n} = {}" by auto
    with False show ?thesis by (simp add: backward_lane_sum.simps [of K k par nbrs n x i acc])
  next
    case True
    have notin: "i \<notin> {(i + VWARP_WIDTH k) + m * VWARP_WIDTH k |m. (i + VWARP_WIDTH k) + m * VWARP_WIDTH k < n}"
      using W by auto
    have "backward_lane_sum K k par nbrs n x i acc =
          backward_lane_sum K k par nbrs n x (i + VWARP_WIDTH k) (acc + ?g i)"
      using True
      by (subst backward_lane_sum.simps) (simp split: option.splits)
    also have "\<dots> = (acc + ?g i) + sum ?g {(i + VWARP_WIDTH k) + m * VWARP_WIDTH k |m. (i + VWARP_WIDTH k) + m * VWARP_WIDTH k < n}"
      using "1.IH" [OF True] by (simp split: option.splits)
    also have "\<dots> = acc + sum ?g {i + m * VWARP_WIDTH k |m. i + m * VWARP_WIDTH k < n}"
      unfolding strided_insert [OF True W]
      using notin by (simp add: strided_finite)
    finally show ?thesis .
  qed
qed

lemma vwarp_reduce_sum:
  "vwarp_reduce (2 ^ m) a 0 = (\<Sum>j<2 ^ (m + 1). a j)"
proof (induction m arbitrary: a)
  case 0
  have "vwarp_reduce 1 a = vwarp_reduce 0 (vwarp_reduce_step 1 a)"
    by (subst vwarp_reduce.simps) simp
  also have "\<dots> = vwarp_reduce_step 1 a"
    by (subst vwarp_reduce.simps) simp
  finally show ?case by (simp add: vwarp_reduce_step_def lessThan_Suc numeral_2_eq_2)
next
  case (Suc m)
  have "vwarp_reduce (2 ^ Suc m) a 0 = vwarp_reduce (2 ^ m) (vwarp_reduce_step (2 ^ Suc m) a) 0"
    by (subst vwarp_reduce.simps) simp
  also have "\<dots> = (\<Sum>j<2 ^ (m + 1). vwarp_reduce_step (2 ^ Suc m) a j)"
    by (rule Suc.IH)
  also have "\<dots> = (\<Sum>j<2 ^ (m + 1). a j + a (j + 2 ^ (m + 1)))"
    by (rule sum.cong) (simp_all add: vwarp_reduce_step_def)
  also have "\<dots> = (\<Sum>j<2 ^ (m + 1). a j) + (\<Sum>j<2 ^ (m + 1). a (j + 2 ^ (m + 1)))"
    by (simp add: sum.distrib)
  also have "(\<Sum>j<2 ^ (m + 1). a (j + 2 ^ (m + 1))) = (\<Sum>j\<in>{2 ^ (m + 1)..<2 ^ (m + 1) + 2 ^ (m + 1)}. a j)"
    using sum.shift_bounds_nat_ivl [of a 0 "2 ^ (m + 1)" "2 ^ (m + 1)"]
    by (simp add: lessThan_atLeast0)
  also have "(\<Sum>j<2 ^ (m + 1). a j) + (\<Sum>j\<in>{2 ^ (m + 1)..<2 ^ (m + 1) + 2 ^ (m + 1)}. a j)
      = (\<Sum>j<2 ^ (m + 1) + 2 ^ (m + 1). a j)"
    by (simp add: lessThan_atLeast0 sum.atLeastLessThan_concat)
  finally show ?case by (simp add: mult_2)
qed

lemma vwarp_total:
  "vwarp_reduce (VWARP_WIDTH k div 2) a 0 = (\<Sum>j<VWARP_WIDTH k. a j)"
proof (cases k)
  case 0
  have "vwarp_reduce 0 a = a" by (subst vwarp_reduce.simps) simp
  with 0 show ?thesis by (simp add: VWARP_WIDTH_def)
next
  case (Suc m)
  then show ?thesis by (simp add: VWARP_WIDTH_def vwarp_reduce_sum)
qed

subsection \<open>Backward kernel on the GPU\<close>

lemma dependency_sum_shift:
  fixes K :: "('w::len) word totem_consts"
  assumes "vertices (subgraph par) v \<le> vertices (subgraph par) (v + 1)"
  shows "(\<Sum>j<vertices (subgraph par) (v + 1) - vertices (subgraph par) v.
            dependency_term K par v (vertices (subgraph par) v + j)) = dependency_sum K par v"
proof -
  let ?a = "vertices (subgraph par) v" and ?b = "vertices (subgraph par) (v + 1)"
  have "dependency_sum K par v = sum (dependency_term K par v) {?a..<?b}"
    by (simp add: dependency_sum_def interv_sum_list_conv_sum_set_nat)
  also have "\<dots> = sum (dependency_term K par v) {0 + ?a..<(?b - ?a) + ?a}"
    using assms by simp
  also have "\<dots> = (\<Sum>j\<in>{0..<?b - ?a}. dependency_term K par v (j + ?a))"
    by (rule sum.shift_bounds_nat_ivl)
  finally show ?thesis by (simp add: lessThan_atLeast0 add.commute)
qed

lemma backward_process_neighbors_with_scores:
  fixes K :: "('w::len) word totem_consts"
  assumes "\<forall>e. vertices (subgraph par) v \<le> e \<longrightarrow> e < vertices (subgraph par) (v + 1) \<longrightarrow>
             backward_pointers par (fst (edge_target K (subgraph par) e))"
    and "backward_pointers par (id_p par)"
    and "\<forall>u. distance (algo_state par) (id_p par) u \<noteq> level (algo_state par) \<longrightarrow>
             D u = delta_local (algo_state par) u"
    and "vertices (subgraph par) v \<le> vertices (subgraph par) (v + 1)"
  shows "backward_process_neighbors K k (vertices (subgraph par) v)
           (vertices (subgraph par) (v + 1) - vertices (subgraph par) v)
           (numSPs (algo_state par) (id_p par) v) v (with_scores par D B) =
         (if dependency_sum K par v \<noteq> 0
          then with_scores par (D(v := dependency_sum K par v))
                 (B(v := B v + dependency_sum K par v))
          else with_scores par D B)"
proof -
  let ?a = "vertices (subgraph par) v" and ?b = "vertices (subgraph par) (v + 1)"
  let ?x = "numSPs (algo_state par) (id_p par) v"
  let ?cur = "with_scores par D B"
  let ?g = "\<lambda>j. case backward_term K ?cur ?x (?a + j) of Some t \<Rightarrow> t | None \<Rightarrow> 0"
  have W: "0 < VWARP_WIDTH k" by (simp add: VWARP_WIDTH_def)
  have g: "?g j = dependency_term K par v (?a + j)" if "j < ?b - ?a" for j
  proof -
    from that have "?a \<le> ?a + j" "?a + j < ?b" by simp_all
    with assms(1) have "backward_pointers par (fst (edge_target K (subgraph par) (?a + j)))"
      by blast
    then show ?thesis by (rule backward_term_with_scores(1) [OF _ assms(3)])
  qed
  have "vwarp_reduce (VWARP_WIDTH k div 2)
          (\<lambda>warp_offset. if warp_offset < VWARP_WIDTH k
             then backward_lane_sum K k ?cur ?a (?b - ?a) ?x warp_offset 0 else 0) 0 =
        (\<Sum>lane<VWARP_WIDTH k. backward_lane_sum K k ?cur ?a (?b - ?a) ?x lane 0)"
    unfolding vwarp_total by (rule sum.cong) simp_all
  also have "\<dots> = (\<Sum>lane<VWARP_WIDTH k.
                   sum ?g {lane + m * VWARP_WIDTH k |m. lane + m * VWARP_WIDTH k < ?b - ?a})"
    by (rule sum.cong) (simp_all only: backward_lane_sum_eq add_0)
  also have "\<dots> = sum ?g {..<?b - ?a}"
    by (rule strided_lanes_sum [OF W])
  also have "\<dots> = (\<Sum>j<?b - ?a. dependency_term K par v (?a + j))"
    by (rule sum.cong) (simp_all add: g)
  also have "\<dots> = dependency_sum K par v"
    by (rule dependency_sum_shift [OF assms(4)])
  finally have total: "vwarp_reduce (VWARP_WIDTH k div 2)
          (\<lambda>warp_offset. if warp_offset < VWARP_WIDTH k
             then backward_lane_sum K k ?cur ?a (?b - ?a) ?x warp_offset 0 else 0) 0 =
          dependency_sum K par v" .
  have p: "delta (algo_state par) (id_p par) = DELTA_LOCAL"
    using assms(2) by (simp add: backward_pointers_def)
  show ?thesis
    apply (simp only: backward_process_neighbors_def Let_def with_scores_fields total p)
    apply (simp add: write_score_def with_scores_def)
    done
qed

lemma backward_gpu_vertices_fold:
  fixes K :: "('w::len) word totem_consts"
  assumes "\<forall>v e. v \<in> set vs \<longrightarrow> vertices (subgraph par) v \<le> e \<longrightarrow>
             e < vertices (subgraph par) (v + 1) \<longrightarrow>
             backward_pointers par (fst (edge_target K (subgraph par) e))"
    and "backward_pointers par (id_p par)"
    and "\<forall>v\<in>set vs. vertices (subgraph par) v \<le> vertices (subgraph par) (v + 1)"
    and "\<forall>v\<in>set vs. distance (algo_state par) (id_p par) v = level (algo_state par)"
    and "distinct vs"
    and "\<forall>u. distance (algo_state par) (id_p par) u \<noteq> level (algo_state par) \<longrightarrow>
             D u = delta_local (algo_state par) u"
  shows "fold (\<lambda>v. backward_process_neighbors K k (vertices (subgraph par) v)
           (vertices (subgraph par) (v + 1) - vertices (subgraph par) v)
           (numSPs (algo_state par) (id_p par) v) v) vs (with_scores par D B) =
     with_scores par
       (\<lambda>u. if u \<in> set vs \<and> dependency_sum K par u \<noteq> 0 then dependency_sum K par u else D u)
       (\<lambda>u. if u \<in> set vs \<and> dependency_sum K par u \<noteq> 0 then B u + dependency_sum K par u
            else B u)"
  using assms(1,3,4,5,6)
proof (induction vs arbitrary: D B)
  case Nil
  show ?case by simp
next
  case (Cons v vs)
  let ?S = "dependency_sum K par"
  let ?D = "if ?S v \<noteq> 0 then D(v := ?S v) else D"
  let ?B = "if ?S v \<noteq> 0 then B(v := B v + ?S v) else B"
  from Cons.prems have
    pv: "\<forall>e. vertices (subgraph par) v \<le> e \<longrightarrow> e < vertices (subgraph par) (v + 1) \<longrightarrow>
             backward_pointers par (fst (edge_target K (subgraph par) e))"
    and pvs: "\<forall>u e. u \<in> set vs \<longrightarrow> vertices (subgraph par) u \<le> e \<longrightarrow>
             e < vertices (subgraph par) (u + 1) \<longrightarrow>
             backward_pointers par (fst (edge_target K (subgraph par) e))"
    and mv: "vertices (subgraph par) v \<le> vertices (subgraph par) (v + 1)"
    and mvs: "\<forall>v\<in>set vs. vertices (subgraph par) v \<le> vertices (subgraph par) (v + 1)"
    and lv: "distance (algo_state par) (id_p par) v = level (algo_state par)"
    and lvs: "\<forall>v\<in>set vs. distance (algo_state par) (id_p par) v = level (algo_state par)"
    and dv: "v \<notin> set vs" and dvs: "distinct vs"
    by simp_all
  have agree: "\<forall>u. distance (algo_state par) (id_p par) u \<noteq> level (algo_state par) \<longrightarrow>
             ?D u = delta_local (algo_state par) u"
    using Cons.prems(5) lv by auto
  have step: "backward_process_neighbors K k (vertices (subgraph par) v)
           (vertices (subgraph par) (v + 1) - vertices (subgraph par) v)
           (numSPs (algo_state par) (id_p par) v) v (with_scores par D B) = with_scores par ?D ?B"
    by (rule trans [OF backward_process_neighbors_with_scores [OF pv assms(2) Cons.prems(5) mv]])
       simp
  have "fold (\<lambda>v. backward_process_neighbors K k (vertices (subgraph par) v)
           (vertices (subgraph par) (v + 1) - vertices (subgraph par) v)
           (numSPs (algo_state par) (id_p par) v) v) (v # vs) (with_scores par D B) =
        fold (\<lambda>v. backward_process_neighbors K k (vertices (subgraph par) v)
           (vertices (subgraph par) (v + 1) - vertices (subgraph par) v)
           (numSPs (algo_state par) (id_p par) v) v) vs (with_scores par ?D ?B)"
    by (simp only: fold_Cons o_apply step)
  also have "\<dots> = with_scores par
       (\<lambda>u. if u \<in> set vs \<and> ?S u \<noteq> 0 then ?S u else ?D u)
       (\<lambda>u. if u \<in> set vs \<and> ?S u \<noteq> 0 then ?B u + ?S u else ?B u)"
    by (rule Cons.IH [OF pvs mvs lvs dvs agree])
  also have "\<dots> = with_scores par
       (\<lambda>u. if u \<in> set (v # vs) \<and> ?S u \<noteq> 0 then ?S u else D u)
       (\<lambda>u. if u \<in> set (v # vs) \<and> ?S u \<noteq> 0 then B u + ?S u else B u)"
    using dv by (auto simp: fun_eq_iff intro!: arg_cong2 [where f = "with_scores par"])
  finally show ?case .
qed





subsection \<open>The backward kernels compared\<close>

lemma at_level_cong:
  assumes "subgraph p = subgraph par" "id_p p = id_p par"
    "distance (algo_state p) = distance (algo_state par)"
    "level (algo_state p) = level (algo_state par)"
  shows "at_level p v = at_level par v"
  by (simp add: at_level_def assms)




subsection \<open>Distances: written once by the forward phase, replaced by the synchronisation\<close>

lemma synch_distance_fold:
  "fold (synch_distance_body par) [0..<n] state =
     state\<lparr>distance := (\<lambda>q. if q < n \<and> q \<noteq> id_p par
          then memcpy_n (distance state q) (pull_values_cost (outbox par q)) (count (outbox par q))
          else distance state q)\<rparr>"
proof (induction n)
  case 0
  show ?case by (auto intro!: state_eqI)
next
  case (Suc n)
  have step: "fold (synch_distance_body par) [0..<Suc n] state =
     synch_distance_body par n (fold (synch_distance_body par) [0..<n] state)"
    by simp
  show ?case
    unfolding step Suc.IH
    by (auto simp: synch_distance_body_def less_Suc_eq intro!: state_eqI)
qed

lemma synch_distance_result:
  "superstep eng \<noteq> 1 \<Longrightarrow> betweenness_synch_distance eng par =
     Inr (eng, par\<lparr>algo_state := (algo_state par)\<lparr>distance := (\<lambda>q.
          if q < partition_count eng \<and> q \<noteq> id_p par
          then memcpy_n (distance (algo_state par) q) (pull_values_cost (outbox par q))
                 (count (outbox par q))
          else distance (algo_state par) q)\<rparr>\<rparr>)"
  by (simp add: betweenness_synch_distance_def synch_distance_fold)

lemma forward_cpu_work_alias:
  "forward_cpu_work (par\<lparr>algo_state := (algo_state par)\<lparr>numSPs_f := f\<rparr>\<rparr>) = forward_cpu_work par"
  by (simp add: forward_cpu_work_def)

lemma forward_distance_alias:
  "forward_distance K (par\<lparr>algo_state := (algo_state par)\<lparr>numSPs_f := f\<rparr>\<rparr>) L q i =
   forward_distance K par L q i"
  by (simp add: forward_distance_def)

lemma ex_second_par_fields:
  "subgraph (ex_second_par proc) = ex_graph0" "processor (ex_second_par proc) = proc"
  "id_p (ex_second_par proc) = 0" "level (algo_state (ex_second_par proc)) = 1"
  "numSPs_f (algo_state (ex_second_par proc)) 0 = NUMSPS 0"
  "distance (algo_state (ex_second_par proc)) =
     (\<lambda>q i. if q = 0 then (if i = 0 then 0 else 1) else (if i = 0 then 1 else - 1))"
  "count (outbox (ex_second_par proc) q) = 2"
  "pull_values_cost (outbox (ex_second_par proc) q) = (\<lambda>i. if i = 0 then 1 else 2)"
  "inbox (ex_second_par proc) q = ex_box (\<lambda>i. if i = 0 then 1 else 0) (\<lambda>i. 0) (\<lambda>i. 0)"
  by (simp_all add: ex_second_par_def ex_par_def ex_state_def ex_box_def)

lemma ex_second_par_targets:
  "forward_cpu_work (ex_second_par proc) = [(2, 1), (3, 1)]"
  "edge_target ex_K ex_graph0 2 = (0, 0)" "edge_target ex_K ex_graph0 3 = (1, 1)"
  "scatter_reaches (ex_second_par proc) 2 0"
proof -
  show "forward_cpu_work (ex_second_par proc) = [(2, 1), (3, 1)]"
    by (simp add: forward_cpu_work_def ex_second_par_def ex_par_def ex_graph0_def ex_state_def
        upt_rec)
  show "edge_target ex_K ex_graph0 2 = (0, 0)" "edge_target ex_K ex_graph0 3 = (1, 1)"
    by (simp_all add: edge_target_def GET_PARTITION_ID_def GET_VERTEX_ID_def ex_K_def ex_graph0_def)
  have "(1::nat) \<in> set [0..<2]" by simp
  moreover have "inbox_reaches (inbox (ex_second_par proc) 1) (count (inbox (ex_second_par proc) 1)) 0"
    by (simp add: inbox_reaches_def ex_second_par_fields ex_box_def)
  ultimately show "scatter_reaches (ex_second_par proc) 2 0"
    unfolding scatter_reaches_def ex_second_par_fields by (intro bexI [of _ 1]) simp_all
qed

text \<open>
  C5, as amended. On a partition with vertices, on a CPU or on a GPU (level not
  \<open>INF_COST\<close>, local \<open>numSPs_f\<close> pointer in place, neighbours in existing partitions,
  \<open>vertices\<close> ascending), neither the forward kernel hook nor the forward scatter hook
  changes a distance entry, local or mirror, that is not \<open>INF_COST\<close>. The kernel hook of
  the distance round changes nothing in its first superstep; in a later superstep it
  replaces every entry of every remote mirror within the count of the outbox by the pull
  value received for it, whatever the entry held, and leaves the other entries as they
  are.
\<close>

theorem distance_written_once_before_synch:
  fixes K :: "('w::len) word totem_consts"
  assumes "vertex_count (subgraph par) \<noteq> 0"
    and "processor par = PROCESSOR_CPU \<or> processor par = PROCESSOR_GPU"
    and "level (algo_state par) \<noteq> INF_COST K"
    and "numSPs_f (algo_state par) (id_p par) = NUMSPS (id_p par)"
    and "\<forall>v e. v < vertex_count (subgraph par) \<longrightarrow> vertices (subgraph par) v \<le> e \<longrightarrow>
           e < vertices (subgraph par) (v + 1) \<longrightarrow>
           GET_PARTITION_ID K (edges (subgraph par) e) < partition_count eng"
    and "\<forall>v. v < vertex_count (subgraph par) \<longrightarrow>
           vertices (subgraph par) v \<le> vertices (subgraph par) (v + 1)"
  shows "(case betweenness_forward K k eng par of
            Inl e \<Rightarrow> False
          | Inr par' \<Rightarrow>
              (\<forall>q i. distance (algo_state par) q i \<noteq> INF_COST K \<longrightarrow>
                 distance (algo_state par') q i = distance (algo_state par) q i)) \<and>
         (case betweenness_scatter_forward K eng par of
            Inl e \<Rightarrow> False
          | Inr par' \<Rightarrow>
              (\<forall>q i. distance (algo_state par) q i \<noteq> INF_COST K \<longrightarrow>
                 distance (algo_state par') q i = distance (algo_state par) q i)) \<and>
         (case betweenness_synch_distance eng par of
            Inl e \<Rightarrow> False
          | Inr ep \<Rightarrow>
              (\<forall>q i. distance (algo_state (snd ep)) q i =
                 (if superstep eng \<noteq> 1 \<and> q < partition_count eng \<and> q \<noteq> id_p par \<and>
                     i < count (outbox par q)
                  then pull_values_cost (outbox par q) i
                  else distance (algo_state par) q i)))"
proof (intro conjI)
  from assms(2) show "case betweenness_forward K k eng par of
            Inl e \<Rightarrow> False
          | Inr par' \<Rightarrow>
              (\<forall>q i. distance (algo_state par) q i \<noteq> INF_COST K \<longrightarrow>
                 distance (algo_state par') q i = distance (algo_state par) q i)"
  proof
    assume cpu: "processor par = PROCESSOR_CPU"
    show ?thesis
      unfolding forward_hook_cpu [OF assms(1) cpu assms(3-5)]
      by (simp add: forward_result_def Let_def forward_distance_def)
  next
    assume gpu: "processor par = PROCESSOR_GPU"
    show ?thesis
      unfolding forward_hook_gpu [OF assms(1) gpu assms(3-6)]
      by (simp add: forward_result_def Let_def forward_distance_def build_frontier_def
            engine_set_outbox_def)
  qed
  show "case betweenness_scatter_forward K eng par of
            Inl e \<Rightarrow> False
          | Inr par' \<Rightarrow>
              (\<forall>q i. distance (algo_state par) q i \<noteq> INF_COST K \<longrightarrow>
                 distance (algo_state par') q i = distance (algo_state par) q i)"
    unfolding scatter_forward_hook [OF assms(1) assms(2)]
    by (simp add: scatter_result_def)
  show "case betweenness_synch_distance eng par of
            Inl e \<Rightarrow> False
          | Inr ep \<Rightarrow>
              (\<forall>q i. distance (algo_state (snd ep)) q i =
                 (if superstep eng \<noteq> 1 \<and> q < partition_count eng \<and> q \<noteq> id_p par \<and>
                     i < count (outbox par q)
                  then pull_values_cost (outbox par q) i
                  else distance (algo_state par) q i))"
  proof (cases "superstep eng = 1")
    case True
    then show ?thesis by (simp add: betweenness_synch_distance_def)
  next
    case False
    then show ?thesis by (auto simp: synch_distance_result memcpy_n_def)
  qed
qed

theorem synch_distance_overwrites_finite:
  "distance (algo_state ex_sync_par) 0 0 = 2 \<and>
   distance (algo_state ex_sync_par) 0 0 \<noteq> INF_COST ex_K \<and>
   distance (algo_state (snd (projr (betweenness_synch_distance (ex_eng 2) ex_sync_par)))) 0 0 = 0 \<and>
   distance (algo_state (snd (projr (betweenness_synch_distance (ex_eng 2) ex_sync_par)))) 0 0
     \<noteq> INF_COST ex_K"
proof -
  have a1: "vertex_count (subgraph ex_forward_par1) \<noteq> 0"
    by (simp add: ex_forward_par1_def ex_par_def ex_graph1_def)
  have a2: "processor ex_forward_par1 = PROCESSOR_CPU"
    by (simp add: ex_forward_par1_def ex_par_def)
  have a3: "level (algo_state ex_forward_par1) \<noteq> INF_COST ex_K"
    by (simp add: ex_forward_par1_def ex_par_def ex_state_def ex_K_def)
  have a4: "numSPs_f (algo_state ex_forward_par1) (id_p ex_forward_par1) = NUMSPS (id_p ex_forward_par1)"
    by (simp add: ex_forward_par1_def ex_par_def ex_state_def)
  have e: "e < 4 \<Longrightarrow> GET_PARTITION_ID ex_K ([0, 17, 1, 16] ! e) < 2" for e
  proof -
    assume "e < 4"
    then have "e = 0 \<or> e = 1 \<or> e = 2 \<or> e = 3" by arith
    then show ?thesis by (auto simp: GET_PARTITION_ID_def ex_K_def)
  qed
  have a5: "\<forall>v e. v < vertex_count (subgraph ex_forward_par1) \<longrightarrow>
      vertices (subgraph ex_forward_par1) v \<le> e \<longrightarrow>
      e < vertices (subgraph ex_forward_par1) (v + 1) \<longrightarrow>
      GET_PARTITION_ID ex_K (edges (subgraph ex_forward_par1) e) < partition_count (ex_eng 2)"
  proof (intro allI impI)
    fix v e
    assume "v < vertex_count (subgraph ex_forward_par1)"
      and "e < vertices (subgraph ex_forward_par1) (v + 1)"
    then have "v = 0 \<or> v = 1" and "e < [0, 2, 4] ! (v + 1)"
      by (auto simp: ex_forward_par1_def ex_par_def ex_graph1_def)
    then have "e < 4" by auto
    then show "GET_PARTITION_ID ex_K (edges (subgraph ex_forward_par1) e) < partition_count (ex_eng 2)"
      using e by (simp add: ex_forward_par1_def ex_par_def ex_graph1_def ex_eng_def)
  qed
  have w: "forward_cpu_work ex_forward_par1 = [(0, 1), (1, 1)]"
    by (simp add: forward_cpu_work_def ex_forward_par1_def ex_par_def ex_graph1_def ex_state_def
        upt_rec)
  have t: "edge_target ex_K ex_graph1 0 = (0, 0)" "edge_target ex_K ex_graph1 1 = (1, 1)"
    by (simp_all add: edge_target_def GET_PARTITION_ID_def GET_VERTEX_ID_def ex_K_def ex_graph1_def)
  note h = forward_hook_cpu [OF a1 a2 a3 a4 a5, of 5]
  have f: "subgraph ex_forward_par1 = ex_graph1" "distance (algo_state ex_forward_par1) 0 0 = - 1"
    "level (algo_state ex_forward_par1) = 1" "INF_COST ex_K = - 1"
    by (simp_all add: ex_forward_par1_def ex_par_def ex_state_def ex_K_def)
  have r: "forward_reached ex_K ex_graph1 [(0, 1), (1, 1)] 0 0"
    by (simp add: forward_reached_def t)
  have d: "distance (algo_state ex_sync_par) 0 0 = 2"
    unfolding ex_sync_par_def h
    by (simp add: Let_def forward_result_def forward_cpu_work_alias forward_distance_alias w
          del: One_nat_def)
       (simp add: forward_distance_def f r del: One_nat_def)
  have c: "count (outbox ex_sync_par 0) = 2" "id_p ex_sync_par = 1"
    "pull_values_cost (outbox ex_sync_par 0) 0 = 0"
    unfolding ex_sync_par_def h
    by (simp_all add: Let_def forward_result_def)
       (simp_all add: ex_forward_par1_def ex_par_def ex_box_def)
  have s: "distance (algo_state (snd (projr (betweenness_synch_distance (ex_eng 2) ex_sync_par)))) 0 0 = 0"
    by (simp add: synch_distance_result ex_eng_def memcpy_n_def c)
  from d s show ?thesis by (simp add: ex_K_def)
qed

theorem distance_written_once_before_synch_witness:
  "processor (ex_second_par PROCESSOR_GPU) = PROCESSOR_GPU \<and>
   processor (ex_second_par PROCESSOR_CPU) = PROCESSOR_CPU \<and>
   forward_reached ex_K ex_graph0 (forward_cpu_work (ex_second_par PROCESSOR_GPU)) 0 0 \<and>
   forward_reached ex_K ex_graph0 (forward_cpu_work (ex_second_par PROCESSOR_CPU)) 0 0 \<and>
   scatter_reaches (ex_second_par PROCESSOR_GPU) 2 0 \<and>
   scatter_reaches (ex_second_par PROCESSOR_CPU) 2 0 \<and>
   distance (algo_state (ex_second_par PROCESSOR_GPU)) 0 0 = 0 \<and>
   distance (algo_state (ex_second_par PROCESSOR_CPU)) 0 0 = 0 \<and>
   INF_COST ex_K = - 1 \<and>
   distance (algo_state (projr (betweenness_forward ex_K 5 (ex_eng 2)
      (ex_second_par PROCESSOR_GPU)))) 0 0 = 0 \<and>
   distance (algo_state (projr (betweenness_forward ex_K 5 (ex_eng 2)
      (ex_second_par PROCESSOR_CPU)))) 0 0 = 0 \<and>
   distance (algo_state (projr (betweenness_scatter_forward ex_K (ex_eng 2)
      (ex_second_par PROCESSOR_GPU)))) 0 0 = 0 \<and>
   distance (algo_state (projr (betweenness_scatter_forward ex_K (ex_eng 2)
      (ex_second_par PROCESSOR_CPU)))) 0 0 = 0 \<and>
   distance (algo_state (ex_second_par PROCESSOR_GPU)) 1 1 = - 1 \<and>
   distance (algo_state (snd (projr (betweenness_synch_distance (ex_eng 2)
      (ex_second_par PROCESSOR_GPU))))) 1 1 = 2 \<and>
   distance (algo_state (snd (projr (betweenness_synch_distance (ex_eng 2)
      (ex_second_par PROCESSOR_GPU))))) 1 0 = 1 \<and>
   distance (algo_state (snd (projr (betweenness_synch_distance (ex_eng 2)
      (ex_second_par PROCESSOR_GPU))))) 0 0 = 0"
proof -
  have a1: "vertex_count (subgraph (ex_second_par proc)) \<noteq> 0" for proc
    by (simp add: ex_second_par_fields ex_graph0_def)
  have a3: "level (algo_state (ex_second_par proc)) \<noteq> INF_COST ex_K" for proc
    by (simp add: ex_second_par_fields ex_K_def)
  have a4: "numSPs_f (algo_state (ex_second_par proc)) (id_p (ex_second_par proc)) =
            NUMSPS (id_p (ex_second_par proc))" for proc
    by (simp add: ex_second_par_fields)
  have a5: "\<forall>v e. v < vertex_count (subgraph (ex_second_par proc)) \<longrightarrow>
      vertices (subgraph (ex_second_par proc)) v \<le> e \<longrightarrow>
      e < vertices (subgraph (ex_second_par proc)) (v + 1) \<longrightarrow>
      GET_PARTITION_ID ex_K (edges (subgraph (ex_second_par proc)) e) < partition_count (ex_eng 2)"
    for proc
    unfolding ex_second_par_fields by (rule ex_graph0_edges)
  have a6: "\<forall>v. v < vertex_count (subgraph (ex_second_par proc)) \<longrightarrow>
      vertices (subgraph (ex_second_par proc)) v \<le> vertices (subgraph (ex_second_par proc)) (v + 1)"
    for proc
    unfolding ex_second_par_fields by (rule ex_graph0_ascending)
  have p: "processor (ex_second_par PROCESSOR_GPU) = PROCESSOR_GPU"
    "processor (ex_second_par PROCESSOR_CPU) = PROCESSOR_CPU"
    by (simp_all add: ex_second_par_fields)
  have r: "forward_reached ex_K ex_graph0 (forward_cpu_work (ex_second_par proc)) 0 0" for proc
    by (simp add: forward_reached_def ex_second_par_targets)
  have d: "distance (algo_state (ex_second_par proc)) 0 0 = 0"
    "distance (algo_state (ex_second_par proc)) 1 1 = - 1" for proc
    by (simp_all add: ex_second_par_fields)
  have k: "INF_COST ex_K = - 1" by (simp add: ex_K_def)
  have n: "distance (algo_state (ex_second_par proc)) 0 0 \<noteq> INF_COST ex_K" for proc
    by (simp add: ex_second_par_fields ex_K_def)
  have f: "superstep (ex_eng 2) \<noteq> 1" "partition_count (ex_eng 2) = 2"
    by (simp_all add: ex_eng_def)
  note g = distance_written_once_before_synch
    [OF a1 disjI2 [OF p(1)] a3 a4 a5 a6, of 5]
  note c = distance_written_once_before_synch
    [OF a1 disjI1 [OF p(2)] a3 a4 a5 a6, of 5]
  from g n have g1: "distance (algo_state (projr (betweenness_forward ex_K 5 (ex_eng 2)
      (ex_second_par PROCESSOR_GPU)))) 0 0 = 0"
    by (auto split: sum.splits simp: d simp del: One_nat_def)
  from c n have c1: "distance (algo_state (projr (betweenness_forward ex_K 5 (ex_eng 2)
      (ex_second_par PROCESSOR_CPU)))) 0 0 = 0"
    by (auto split: sum.splits simp: d simp del: One_nat_def)
  from g n have g2: "distance (algo_state (projr (betweenness_scatter_forward ex_K (ex_eng 2)
      (ex_second_par PROCESSOR_GPU)))) 0 0 = 0"
    by (auto split: sum.splits simp: d simp del: One_nat_def)
  from c n have c2: "distance (algo_state (projr (betweenness_scatter_forward ex_K (ex_eng 2)
      (ex_second_par PROCESSOR_CPU)))) 0 0 = 0"
    by (auto split: sum.splits simp: d simp del: One_nat_def)
  from g have g3:
    "distance (algo_state (snd (projr (betweenness_synch_distance (ex_eng 2)
      (ex_second_par PROCESSOR_GPU))))) 1 1 = 2"
    "distance (algo_state (snd (projr (betweenness_synch_distance (ex_eng 2)
      (ex_second_par PROCESSOR_GPU))))) 1 0 = 1"
    "distance (algo_state (snd (projr (betweenness_synch_distance (ex_eng 2)
      (ex_second_par PROCESSOR_GPU))))) 0 0 = 0"
    by (auto split: sum.splits simp: f ex_second_par_fields simp del: One_nat_def)
  show ?thesis
    using p r [of PROCESSOR_GPU] r [of PROCESSOR_CPU]
      ex_second_par_targets(4) [of PROCESSOR_GPU] ex_second_par_targets(4) [of PROCESSOR_CPU]
      d(1) [of PROCESSOR_GPU] d(1) [of PROCESSOR_CPU] d(2) [of PROCESSOR_GPU] k g1 c1 g2 c2 g3
    by blast
qed
subsection \<open>Aggregation\<close>

lemma aggr_body_apply:
  "aggr_body K eng g par vals v score u =
     (if u = map_p par v
      then (if epsilon g = CENTRALITY_EXACT K then vals v
            else vals v * (real (engine_vertex_count eng) / real_of_int (num_samples g)))
      else score u)"
  by (simp add: aggr_body_def)

lemma aggr_fold_other:
  "u \<notin> map_p par ` {..<n} \<Longrightarrow> fold (aggr_body K eng g par vals) [0..<n] score u = score u"
  by (induction n) (auto simp: aggr_body_apply lessThan_Suc)

lemma aggr_fold_at:
  assumes "inj_on (map_p par) {..<n}" and "v < n"
  shows "fold (aggr_body K eng g par vals) [0..<n] score (map_p par v) =
     (if epsilon g = CENTRALITY_EXACT K then vals v
      else vals v * (real (engine_vertex_count eng) / real_of_int (num_samples g)))"
  using assms
proof (induction n)
  case 0
  then show ?case by simp
next
  case (Suc n)
  then have inj: "inj_on (map_p par) {..<n}" by (simp add: lessThan_Suc)
  have step: "fold (aggr_body K eng g par vals) [0..<Suc n] score =
      aggr_body K eng g par vals n (fold (aggr_body K eng g par vals) [0..<n] score)"
    by simp
  note st = aggr_body_apply [of K eng g par vals n "fold (aggr_body K eng g par vals) [0..<n] score"]
  show ?case
  proof (cases "v = n")
    case True
    then show ?thesis unfolding step st by simp
  next
    case False
    with Suc.prems have vn: "v < n" by simp
    with Suc.prems have "map_p par v \<noteq> map_p par n"
      by (auto simp: inj_on_def)
    then show ?thesis
      unfolding step st using Suc.IH [OF inj vn] by simp
  qed
qed

text \<open>
  C7. The aggregation hook of a partition with vertices, on a CPU or on a GPU with the
  host buffer allocated, with the output array allocated and \<open>map\<close> injective on the
  local vertices (in approximate mode the number of samples is not zero): for every
  local vertex \<open>v\<close> the entry \<open>map[v]\<close> of the output is \<open>betweenness[v]\<close> in exact mode
  and \<open>betweenness[v]\<close> times \<open>V_total / num_samples\<close> otherwise; the other entries
  of the output are not touched.
\<close>

theorem betweenness_aggr_scores:
  assumes "vertex_count (subgraph par) \<noteq> 0"
    and "processor par = PROCESSOR_CPU \<or>
         (processor par = PROCESSOR_GPU \<and> betweenness_score_h bc_g \<noteq> None)"
    and "betweenness_score bc_g = Some score"
    and "inj_on (map_p par) {..<vertex_count (subgraph par)}"
    and "epsilon bc_g \<noteq> CENTRALITY_EXACT K \<longrightarrow> num_samples bc_g \<noteq> 0"
  shows "case betweenness_aggr K eng bc_g par of
           Inl e \<Rightarrow> False
         | Inr g' \<Rightarrow>
            (case betweenness_score g' of
               None \<Rightarrow> False
             | Some score' \<Rightarrow>
                 (\<forall>v<vertex_count (subgraph par).
                    score' (map_p par v) =
                      (if epsilon bc_g = CENTRALITY_EXACT K then betweenness (algo_state par) v
                       else betweenness (algo_state par) v *
                            (real (engine_vertex_count eng) / real_of_int (num_samples bc_g)))) \<and>
                 (\<forall>u. u \<notin> map_p par ` {..<vertex_count (subgraph par)} \<longrightarrow> score' u = score u))"
proof (cases "processor par = PROCESSOR_CPU")
  case True
  with assms(1,3) show ?thesis
    by (simp add: betweenness_aggr_def Let_def aggr_fold_other aggr_fold_at [OF assms(4)])
next
  case False
  with assms(2) obtain h where g: "processor par = PROCESSOR_GPU" "betweenness_score_h bc_g = Some h"
    by auto
  with assms(1,3) show ?thesis
    by (simp add: betweenness_aggr_def Let_def aggr_fold_other aggr_fold_at [OF assms(4)]
        memcpy_n_def)
qed

theorem betweenness_aggr_scores_witness:
  "vertex_count (subgraph ex_aggr_par) \<noteq> 0 \<and>
   processor ex_aggr_par = PROCESSOR_GPU \<and> betweenness_score_h ex_aggr_g \<noteq> None \<and>
   betweenness_score ex_aggr_g = Some (\<lambda>v. 7) \<and>
   epsilon ex_aggr_g \<noteq> CENTRALITY_EXACT ex_K \<and> num_samples ex_aggr_g \<noteq> 0 \<and>
   (case betweenness_aggr ex_K (ex_eng 3) ex_aggr_g ex_aggr_par of
      Inl e \<Rightarrow> False
    | Inr g' \<Rightarrow>
        (case betweenness_score g' of
           None \<Rightarrow> False
         | Some score' \<Rightarrow> score' 2 = 6 \<and> score' 3 = 1 \<and> score' 0 = 7))"
proof -
  have a1: "vertex_count (subgraph ex_aggr_par) \<noteq> 0"
    by (simp add: ex_aggr_par_def ex_par_def ex_graph1_def)
  have a2: "processor ex_aggr_par = PROCESSOR_CPU \<or>
    (processor ex_aggr_par = PROCESSOR_GPU \<and> betweenness_score_h ex_aggr_g \<noteq> None)"
    by (simp add: ex_aggr_par_def ex_par_def ex_aggr_g_def)
  have a3: "betweenness_score ex_aggr_g = Some (\<lambda>v. 7)"
    by (simp add: ex_aggr_g_def)
  have a4: "inj_on (map_p ex_aggr_par) {..<vertex_count (subgraph ex_aggr_par)}"
    by (simp add: ex_aggr_par_def ex_par_def inj_on_def)
  have a5: "epsilon ex_aggr_g \<noteq> CENTRALITY_EXACT ex_K \<longrightarrow> num_samples ex_aggr_g \<noteq> 0"
    by (simp add: ex_aggr_g_def)
  have m: "map_p ex_aggr_par = (\<lambda>v. 2 + v)" "vertex_count (subgraph ex_aggr_par) = 2"
    "epsilon ex_aggr_g \<noteq> CENTRALITY_EXACT ex_K" "engine_vertex_count (ex_eng 3) = 4"
    "num_samples ex_aggr_g = 2"
    "betweenness (algo_state ex_aggr_par) = (\<lambda>v. if v = 0 then 3 else 1 / 2)"
    by (simp_all add: ex_aggr_par_def ex_par_def ex_graph1_def ex_aggr_g_def ex_K_def ex_eng_def
        ex_state_def fun_eq_iff)
  have i: "(0::nat) \<notin> (\<lambda>v. 2 + v) ` {..<2}" by auto
  note th = betweenness_aggr_scores [OF a1 a2 a3 a4 a5, of "ex_eng 3"]
  show ?thesis
  proof (cases "betweenness_aggr ex_K (ex_eng 3) ex_aggr_g ex_aggr_par")
    case (Inl e)
    with th show ?thesis by simp
  next
    case (Inr g')
    show ?thesis
    proof (cases "betweenness_score g'")
      case None
      with th Inr show ?thesis by simp
    next
      case (Some score')
      with th Inr have
        v: "\<forall>v<2. score' (2 + v) = (if v = 0 then 3 else 1 / 2) * (4 / 2)"
        and u: "\<forall>u. u \<notin> (\<lambda>v. 2 + v) ` {..<2} \<longrightarrow> score' u = 7"
        by (simp_all add: m)
      from v [rule_format, of 0] v [rule_format, of 1] u [rule_format, OF i]
      have "score' 2 = 6 \<and> score' 3 = 1 \<and> score' 0 = 7" by simp
      moreover have "processor ex_aggr_par = PROCESSOR_GPU" "betweenness_score_h ex_aggr_g \<noteq> None"
        by (simp_all add: ex_aggr_par_def ex_par_def ex_aggr_g_def)
      ultimately show ?thesis using a1 a3 m(3,5) Inr Some by simp
    qed
  qed
qed

subsection \<open>Entry point\<close>

text \<open>
  C8. On a graph with at most one vertex \<^verbatim>\<open>betweenness_hybrid\<close> returns \<open>SUCCESS\<close>, the
  entries of the output array for the vertices are zero, and the result does not depend
  on the rounds: none is run.
\<close>

theorem betweenness_hybrid_trivial:
  assumes "vertex_count g \<le> 1"
  shows "fst (betweenness_hybrid rounds g eps out) = SUCCESS \<and>
         (\<forall>i<vertex_count g. snd (betweenness_hybrid rounds g eps out) i = 0) \<and>
         betweenness_hybrid rounds g eps out = betweenness_hybrid rounds' g eps out"
  using assms
  by (simp add: betweenness_hybrid_def betweenness_check_special_cases_def Let_def
      totem_memset_def)

theorem betweenness_hybrid_trivial_witness:
  "vertex_count ex_single \<le> 1 \<and>
   fst (betweenness_hybrid (\<lambda>e s. (FAILURE, s)) ex_single 0 (\<lambda>i. 5)) = SUCCESS \<and>
   snd (betweenness_hybrid (\<lambda>e s. (FAILURE, s)) ex_single 0 (\<lambda>i. 5)) 0 = 0"
proof -
  have a: "vertex_count ex_single \<le> 1" by (simp add: ex_single_def)
  have b: "(0::nat) < vertex_count ex_single" by (simp add: ex_single_def)
  note th = betweenness_hybrid_trivial [OF a, of "\<lambda>e s. (FAILURE, s)" 0 "\<lambda>i. 5"]
  from th b have "snd (betweenness_hybrid (\<lambda>e s. (FAILURE, s)) ex_single 0 (\<lambda>i. 5)) 0 = 0"
    by blast
  with a th show ?thesis by blast
qed


end
